theory Spec2Isabelle
  imports Complex_Main
begin

section \<open>Data model (types.ts)\<close>

text \<open>
  The enum \<open>GestureType\<close> and the interface \<open>Particle\<close>. JavaScript numbers are
  modelled as real numbers (no NaN); the arithmetic of the engine is first given over
  the reals, without rounding, and the move of the flower branch is given again with
  the binary64 rounding of every operation in the section on double-precision
  arithmetic. The fields of a particle carry the
  prefix \<open>p_\<close>, since a record field is a global constant and \<open>x\<close>, \<open>y\<close>, \<open>size\<close>
  would capture variable and library names. The optional fields \<open>targetX\<close>,
  \<open>targetY\<close> are never assigned by the program.
\<close>

datatype GestureType = FIST | OPEN | NONE

text \<open>
  A particle's \<open>color\<close> is a CSS colour string built from numbers; the model keeps the
  numbers: \<open>rgba(r, g, b, a)\<close> and \<open>hsla(h, s%, l%, a)\<close>.
\<close>

datatype css_color = Rgba real real real real | Hsla real real real real

record Particle =
  p_x :: real
  p_y :: real
  p_vx :: real
  p_vy :: real
  p_targetX :: "real option"
  p_targetY :: "real option"
  p_color :: css_color
  p_size :: real
  p_baseX :: real
  p_baseY :: real

section \<open>The particle engine (components/ParticleCanvas.tsx)\<close>

text \<open>
  What one call of \<open>animate\<close> reads from outside the particle list: whether the canvas
  and its 2D context exist, the pointer (\<open>mouseRef.current\<close>), the surface size
  (\<open>dimensionsRef.current\<close>, copied from the canvas, whose width and height are
  unsigned integers), the clock (\<open>Date.now()\<close> as read while particle \<open>i\<close> is
  coloured) and the two \<open>Math.random()\<close> draws made for particle \<open>i\<close> in open mode.
\<close>

record frame =
  has_canvas :: bool
  has_ctx :: bool
  mouse_x :: real
  mouse_y :: real
  width :: nat
  height :: nat
  now :: "nat \<Rightarrow> real"
  random :: "nat \<Rightarrow> real \<times> real"

text \<open>
  \<open>initParticles(width, height)\<close>: 1200 particles, seven \<open>Math.random()\<close> draws each
  (x, y, vx, vy, size, baseX, baseY, in this order); \<open>rnd k\<close> is the \<open>k\<close>-th draw.
\<close>

definition particleCount :: nat where
  "particleCount = 1200"

definition initParticle :: "(nat \<Rightarrow> real) \<Rightarrow> real \<Rightarrow> real \<Rightarrow> nat \<Rightarrow> Particle" where
  "initParticle rnd w h i =
     \<lparr> p_x = rnd (7 * i) * w,
       p_y = rnd (7 * i + 1) * h,
       p_vx = (rnd (7 * i + 2) - 0.5) * 2,
       p_vy = (rnd (7 * i + 3) - 0.5) * 2,
       p_targetX = None,
       p_targetY = None,
       p_color = Rgba 100 200 255 0.8,
       p_size = rnd (7 * i + 4) * 2 + 1,
       p_baseX = rnd (7 * i + 5) * w,
       p_baseY = rnd (7 * i + 6) * h \<rparr>"

definition initParticles :: "(nat \<Rightarrow> real) \<Rightarrow> real \<Rightarrow> real \<Rightarrow> Particle list" where
  "initParticles rnd w h = map (initParticle rnd w h) [0..<particleCount]"

text \<open>
  \<open>handleResize\<close>: the canvas takes the window's size, and a population is created
  only when there is none yet.
\<close>

definition handleResize :: "(nat \<Rightarrow> real) \<Rightarrow> nat \<Rightarrow> nat \<Rightarrow> Particle list \<Rightarrow> Particle list" where
  "handleResize rnd innerWidth innerHeight ps =
     (if length ps = 0 then initParticles rnd (real innerWidth) (real innerHeight) else ps)"

text \<open>
  \<open>calculateFlowerTarget(index, total, centerX, centerY, width, height)\<close>, line by
  line. (For \<open>total = 0\<close> JavaScript yields NaN or an infinity where HOL's division
  yields 0; \<open>animate\<close> only calls it from inside the loop over a non-empty list.)
\<close>

definition calculateFlowerTarget ::
  "real \<Rightarrow> real \<Rightarrow> real \<Rightarrow> real \<Rightarrow> real \<Rightarrow> real \<Rightarrow> real \<times> real" where
  "calculateFlowerTarget index totalCount centerX centerY w h =
     (let k = 5;
          theta = (index / totalCount) * pi * 2 * 4;
          scale = min w h * 0.35;
          r = scale * cos (k * theta);
          targetX = centerX + r * cos theta;
          targetY = centerY + r * sin theta
      in (targetX, targetY))"

text \<open>\<open>Math.atan2(y, x)\<close> on real numbers (signed zeros are not modelled).\<close>

definition atan2 :: "real \<Rightarrow> real \<Rightarrow> real" where
  "atan2 b a =
     (if 0 < a then arctan (b / a)
      else if a < 0 then (if 0 \<le> b then arctan (b / a) + pi else arctan (b / a) - pi)
      else if 0 < b then pi / 2
      else if b < 0 then - (pi / 2)
      else 0)"

text \<open>
  The flower-mode branch of the loop body for the particle at index \<open>i\<close> of a list of
  \<open>total\<close> particles, with the arithmetic over the reals; \<open>flower_move\<close> below is the
  move of this branch with rounding.
\<close>

definition flower_update :: "frame \<Rightarrow> nat \<Rightarrow> nat \<Rightarrow> Particle \<Rightarrow> Particle" where
  "flower_update f i totalCount p =
     (let target = calculateFlowerTarget (real i) (real totalCount) (mouse_x f) (mouse_y f)
                     (real (width f)) (real (height f));
          dx = fst target - p_x p;
          dy = snd target - p_y p;
          vx1 = dx * 0.05;
          vy1 = dy * 0.05
      in p\<lparr> p_vx := vx1, p_vy := vy1,
             p_x := p_x p + vx1, p_y := p_y p + vy1,
             p_color := Hsla (320 + sin (now f i * 0.001 + real i) * 30) 80 60 0.9 \<rparr>)"

text \<open>
  The open-mode branch: noise, speed limit, integration, the two wrap tests per
  coordinate in the order of the source, repulsion from the pointer, colour.
\<close>

definition open_update :: "frame \<Rightarrow> nat \<Rightarrow> Particle \<Rightarrow> Particle" where
  "open_update f i p =
     (let vx1 = p_vx p + (fst (random f i) - 0.5) * 0.1;
          vy1 = p_vy p + (snd (random f i) - 0.5) * 0.1;
          maxSpeed = 2;
          vx2 = max (min vx1 maxSpeed) (- maxSpeed);
          vy2 = max (min vy1 maxSpeed) (- maxSpeed);
          x1 = p_x p + vx2;
          y1 = p_y p + vy2;
          x2 = (if x1 < 0 then real (width f) else x1);
          x3 = (if x2 > real (width f) then 0 else x2);
          y2 = (if y1 < 0 then real (height f) else y1);
          y3 = (if y2 > real (height f) then 0 else y2);
          dx = x3 - mouse_x f;
          dy = y3 - mouse_y f;
          dist = sqrt (dx * dx + dy * dy);
          angle = atan2 dy dx;
          force = (100 - dist) * 0.1;
          vx3 = (if dist < 100 then vx2 + cos angle * force else vx2);
          vy3 = (if dist < 100 then vy2 + sin angle * force else vy2)
      in p\<lparr> p_vx := vx3, p_vy := vy3, p_x := x3, p_y := y3,
             p_color := Hsla (180 + sin (now f i * 0.001 + real i) * 30) 80 60 0.8 \<rparr>)"

text \<open>
  Drawing one particle: \<open>ctx.arc(p.x, p.y, p.size, 0, Math.PI * 2)\<close> raises an
  \<open>IndexSizeError\<close> when the radius is negative and draws otherwise. The other
  drawing calls (\<open>clearRect\<close>, \<open>beginPath\<close>, \<open>fill\<close>, the shadow settings) raise
  nothing, and none of them writes a field of a particle.
\<close>

datatype dom_error = IndexSizeError

definition draw_particle :: "Particle \<Rightarrow> dom_error + unit" where
  "draw_particle p = (if p_size p < 0 then Inl IndexSizeError else Inr ())"

text \<open>
  The loop \<open>particlesRef.current.forEach((p, i) => ...)\<close>: the particle at index \<open>i\<close>
  is updated, then drawn; an exception of the drawing call ends the loop and the frame.
\<close>

definition update_particle :: "bool \<Rightarrow> frame \<Rightarrow> nat \<Rightarrow> nat \<Rightarrow> Particle \<Rightarrow> Particle" where
  "update_particle isFlowerMode f i totalCount p =
     (if isFlowerMode then flower_update f i totalCount p else open_update f i p)"

fun forEach_particle ::
  "bool \<Rightarrow> frame \<Rightarrow> nat \<Rightarrow> nat \<Rightarrow> Particle list \<Rightarrow> dom_error + Particle list" where
  "forEach_particle isFlowerMode f totalCount i [] = Inr []"
| "forEach_particle isFlowerMode f totalCount i (p # ps) =
     (let q = update_particle isFlowerMode f i totalCount p
      in case draw_particle q of
           Inl e \<Rightarrow> Inl e
         | Inr _ \<Rightarrow>
             (case forEach_particle isFlowerMode f totalCount (Suc i) ps of
                Inl e \<Rightarrow> Inl e
              | Inr qs \<Rightarrow> Inr (q # qs)))"

text \<open>
  One call of \<open>animate\<close> under the gesture the effect closed over: the guard on canvas
  and context, the mode test \<open>gesture === GestureType.FIST\<close>, the loop. The result is
  the particle list after the frame, or the exception that left \<open>animate\<close>.
\<close>

definition animate :: "GestureType \<Rightarrow> frame \<Rightarrow> Particle list \<Rightarrow> dom_error + Particle list" where
  "animate gesture f ps =
     (if \<not> has_canvas f \<or> \<not> has_ctx f then Inr ps
      else let isFlowerMode = (gesture = FIST)
           in forEach_particle isFlowerMode f (length ps) 0 ps)"

text \<open>
  A run of frames, each with the gesture in force when it is drawn. \<open>animate\<close>
  schedules the next frame in its last statement, so an exception ends the run.
\<close>

fun run_frames :: "(GestureType \<times> frame) list \<Rightarrow> Particle list \<Rightarrow> dom_error + Particle list" where
  "run_frames [] ps = Inr ps"
| "run_frames ((g, f) # fs) ps =
     (case animate g f ps of Inl e \<Rightarrow> Inl e | Inr qs \<Rightarrow> run_frames fs qs)"

subsection \<open>Notions used to state the engine's properties\<close>

text \<open>
  The list the loop leaves behind when no drawing call raises: every particle updated
  at its own index, the first index being \<open>i\<close>.
\<close>

definition updated :: "bool \<Rightarrow> frame \<Rightarrow> nat \<Rightarrow> nat \<Rightarrow> Particle list \<Rightarrow> Particle list" where
  "updated isFlowerMode f totalCount i ps =
     map (\<lambda>(j, p). update_particle isFlowerMode f j totalCount p) (enumerate i ps)"

text \<open>A population every particle of which can be drawn: no negative radius.\<close>

definition drawable :: "Particle list \<Rightarrow> bool" where
  "drawable ps = list_all (\<lambda>p. 0 \<le> p_size p) ps"

text \<open>The target \<open>animate\<close> computes in flower mode for the particle at index \<open>i\<close> of \<open>n\<close>.\<close>

definition flower_target :: "frame \<Rightarrow> nat \<Rightarrow> nat \<Rightarrow> real \<times> real" where
  "flower_target f i n =
     calculateFlowerTarget (real i) (real n) (mouse_x f) (mouse_y f)
       (real (width f)) (real (height f))"

text \<open>Euclidean distance from a particle's position to a point.\<close>

definition dist_to :: "real \<times> real \<Rightarrow> Particle \<Rightarrow> real" where
  "dist_to t p = sqrt ((fst t - p_x p)\<^sup>2 + (snd t - p_y p)\<^sup>2)"

text \<open>
  Two frames with the same pointer position and the same surface size; a frame drawn in
  flower mode on an existing canvas with the pointer and size of \<open>f\<close>.
\<close>

definition same_view :: "frame \<Rightarrow> frame \<Rightarrow> bool" where
  "same_view f f' =
     (mouse_x f' = mouse_x f \<and> mouse_y f' = mouse_y f \<and>
      width f' = width f \<and> height f' = height f)"

definition flower_frame :: "frame \<Rightarrow> GestureType \<times> frame \<Rightarrow> bool" where
  "flower_frame f gf =
     (fst gf = FIST \<and> has_canvas (snd gf) \<and> has_ctx (snd gf) \<and> same_view f (snd gf))"


text \<open>The positions in the result of a frame.\<close>

definition positions :: "dom_error + Particle list \<Rightarrow> dom_error + (real \<times> real) list" where
  "positions r = map_sum id (map (\<lambda>p. (p_x p, p_y p))) r"

text \<open>
  The rose curve in the words of the specification: the angle \<open>(index / total) \<cdot> 8\<pi>\<close>,
  the scale \<open>0.35 \<cdot> min(width, height)\<close>, and the point with polar radius
  \<open>scale \<cdot> cos(5\<theta>)\<close> at angle \<open>\<theta>\<close> around the centre. These three are written from
  the specification, to be compared with \<open>calculateFlowerTarget\<close>.
\<close>

definition rose_theta :: "real \<Rightarrow> real \<Rightarrow> real" where
  "rose_theta index totalCount = (index / totalCount) * (8 * pi)"

definition rose_scale :: "real \<Rightarrow> real \<Rightarrow> real" where
  "rose_scale w h = 0.35 * min w h"

definition rose_point :: "real \<Rightarrow> real \<Rightarrow> real \<Rightarrow> real \<Rightarrow> real \<times> real" where
  "rose_point scale theta centerX centerY =
     (centerX + scale * cos (5 * theta) * cos theta,
      centerY + scale * cos (5 * theta) * sin theta)"

subsection \<open>Concrete inputs\<close>

text \<open>
  An 800 by 600 surface with the pointer in the middle, the clock at 0 and every random
  draw 0.5 (no noise); the same surface with the pointer ten units from the right edge;
  a surface that has no size yet, with the pointer at the origin.
\<close>

definition demo_frame :: frame where
  "demo_frame = \<lparr> has_canvas = True, has_ctx = True, mouse_x = 400, mouse_y = 300,
                   width = 800, height = 600, now = (\<lambda>i. 0), random = (\<lambda>i. (0.5, 0.5)) \<rparr>"


definition unsized_frame :: frame where
  "unsized_frame = \<lparr> has_canvas = True, has_ctx = True, mouse_x = 0, mouse_y = 0,
                      width = 0, height = 0, now = (\<lambda>i. 0), random = (\<lambda>i. (0.5, 0.5)) \<rparr>"

text \<open>
  A particle half a unit from the left edge moving left; a particle at rest right of the
  surface; the stream of random draws that are all 0.5.
\<close>

definition edge_particle :: Particle where
  "edge_particle = \<lparr> p_x = 0.5, p_y = 100, p_vx = -1, p_vy = 0,
                      p_targetX = None, p_targetY = None, p_color = Rgba 100 200 255 0.8,
                      p_size = 2, p_baseX = 10, p_baseY = 10 \<rparr>"


definition half_draws :: "nat \<Rightarrow> real" where
  "half_draws k = 0.5"

section \<open>The authoritative gesture (App.tsx)\<close>

text \<open>
  The two state cells of \<open>App\<close>: the label last published by the camera pipeline
  (\<open>setCameraGesture\<close> is the \<open>onGestureDetected\<close> callback) and the override flag.
\<close>

record app_state =
  cameraGesture :: GestureType
  isShiftPressed :: bool

definition app_init :: app_state where
  "app_init = \<lparr> cameraGesture = NONE, isShiftPressed = False \<rparr>"

text \<open>\<open>const currentGesture = isShiftPressed ? GestureType.FIST : cameraGesture\<close>.\<close>

definition currentGesture :: "app_state \<Rightarrow> GestureType" where
  "currentGesture s = (if isShiftPressed s then FIST else cameraGesture s)"

text \<open>The key handlers and the callback; a key event carries its \<open>key\<close> name.\<close>

datatype app_event = KeyDown string | KeyUp string | GestureDetected GestureType

definition handleKeyDown :: "string \<Rightarrow> app_state \<Rightarrow> app_state" where
  "handleKeyDown key s = (if key = ''Shift'' then s\<lparr>isShiftPressed := True\<rparr> else s)"

definition handleKeyUp :: "string \<Rightarrow> app_state \<Rightarrow> app_state" where
  "handleKeyUp key s = (if key = ''Shift'' then s\<lparr>isShiftPressed := False\<rparr> else s)"

fun app_step :: "app_state \<Rightarrow> app_event \<Rightarrow> app_state" where
  "app_step s (KeyDown key) = handleKeyDown key s"
| "app_step s (KeyUp key) = handleKeyUp key s"
| "app_step s (GestureDetected g) = s\<lparr>cameraGesture := g\<rparr>"

definition app_run :: "app_event list \<Rightarrow> app_state \<Rightarrow> app_state" where
  "app_run evs s = foldl app_step s evs"

text \<open>
  Read off a list of events, without running the handlers: the labels published, in
  order, and whether the override key is held at the end.
\<close>

fun published :: "app_event list \<Rightarrow> GestureType list" where
  "published [] = []"
| "published (GestureDetected g # evs) = g # published evs"
| "published (ev # evs) = published evs"

fun held_after :: "bool \<Rightarrow> app_event list \<Rightarrow> bool" where
  "held_after b [] = b"
| "held_after b (KeyDown key # evs) = held_after (if key = ''Shift'' then True else b) evs"
| "held_after b (KeyUp key # evs) = held_after (if key = ''Shift'' then False else b) evs"
| "held_after b (ev # evs) = held_after b evs"

section \<open>Camera acquisition and sampling (GestureControl)\<close>

subsection \<open>The browser's side\<close>

text \<open>
  A rejected promise or a thrown value, as far as the component looks at it: its
  \<open>name\<close> and its \<open>message\<close> (an absent message is the empty string, which is falsy
  like \<open>undefined\<close>). A media stream is known by its identity, a device by its
  \<open>kind\<close> and \<open>deviceId\<close>.
\<close>

record js_error =
  err_name :: string
  err_message :: string

type_synonym stream = nat

record device =
  kind :: string
  deviceId :: string

text \<open>
  The three constraint objects the component passes to \<open>getUserMedia\<close>:
  \<open>{video: {facingMode: 'user', width: {ideal: 320}, height: {ideal: 240}}}\<close>,
  \<open>{video: true}\<close> and \<open>{video: {deviceId: {exact: id}}}\<close>; and
  \<open>navigator.mediaDevices\<close> as the answers it gives during one call of
  \<open>startCamera\<close>.
\<close>

datatype constraints = IdealUser320x240 | VideoTrue | ExactDeviceId string

record mediaDevices =
  getUserMedia :: "constraints \<Rightarrow> js_error + stream"
  enumerateDevices :: "js_error + device list"

datatype media_call = GetUserMedia constraints | EnumerateDevices

subsection \<open>The component's state\<close>

text \<open>
  The refs and state cells of \<open>GestureControl\<close>: \<open>streamRef.current\<close>, whether the
  video and the hidden canvas elements are mounted (\<open>videoRef.current\<close>,
  \<open>canvasRef.current\<close>), the video's \<open>srcObject\<close> and whether its
  \<open>onloadedmetadata\<close> handler is installed, and the cells \<open>isCameraReady\<close>,
  \<open>error\<close>, \<open>isProcessing\<close>. A state cell is read at its current value: React renders
  again after every change of a cell and re-creates \<open>captureAndAnalyze\<close> and its
  interval, so each event sees the cells as the previous event left them.

  Four fields record what the component did: the streams whose tracks it stopped, the
  images it submitted to \<open>detectHandGesture\<close> whose promise has not settled yet, the
  number of frames it set out to capture, and the labels it passed to
  \<open>onGestureDetected\<close>.
\<close>

record 'g control_state =
  streamRef :: "stream option"
  video_mounted :: bool
  canvas_mounted :: bool
  srcObject :: "stream option"
  onloadedmetadata :: bool
  isCameraReady :: bool
  error :: "string option"
  isProcessing :: bool
  stopped :: "stream list"
  in_flight :: "string list"
  captures :: nat
  detected :: "'g list"

definition control_init :: "'g control_state" where
  "control_init =
     \<lparr> streamRef = None, video_mounted = True, canvas_mounted = True, srcObject = None,
       onloadedmetadata = False, isCameraReady = False, error = None, isProcessing = False,
       stopped = [], in_flight = [], captures = 0, detected = [] \<rparr>"

subsection \<open>Camera acquisition\<close>

definition stopCamera :: "'g control_state \<Rightarrow> 'g control_state" where
  "stopCamera s =
     (let s1 = (case streamRef s of
                  Some st \<Rightarrow> s\<lparr> stopped := stopped s @ [st], streamRef := None \<rparr>
                | None \<Rightarrow> s);
          s2 = (if video_mounted s1 then s1\<lparr> srcObject := None \<rparr> else s1)
      in s2\<lparr> isCameraReady := False \<rparr>)"

definition handleStreamSuccess :: "stream \<Rightarrow> 'g control_state \<Rightarrow> 'g control_state" where
  "handleStreamSuccess st s =
     (let s1 = s\<lparr> streamRef := Some st \<rparr>;
          s2 = (if video_mounted s1
                then s1\<lparr> srcObject := Some st, onloadedmetadata := True \<rparr>
                else s1)
      in s2\<lparr> error := None \<rparr>)"

text \<open>
  The handler installed by \<open>handleStreamSuccess\<close>, run when the video reports its
  metadata: it sets \<open>isCameraReady\<close> and starts playback (a rejected \<open>play()\<close> is
  logged). The browser fires the event only for a video that has a source.
\<close>

definition loadedmetadata :: "'g control_state \<Rightarrow> 'g control_state" where
  "loadedmetadata s =
     (if video_mounted s \<and> srcObject s \<noteq> None \<and> onloadedmetadata s
      then s\<lparr> isCameraReady := True \<rparr> else s)"

text \<open>\<open>String.prototype.includes\<close>: the pattern occurs somewhere in the text.\<close>

fun includes_str :: "string \<Rightarrow> string \<Rightarrow> bool" where
  "includes_str [] pat = (pat = [])"
| "includes_str (c # cs) pat = (take (length pat) (c # cs) = pat \<or> includes_str cs pat)"

text \<open>
  \<open>handleError\<close>: the local \<open>msg\<close> after the chain of tests, and the call
  \<open>setError(msg)\<close>.
\<close>

definition handleError_msg :: "js_error \<Rightarrow> string" where
  "handleError_msg err =
     (if err_name err = ''NotAllowedError'' \<or> err_name err = ''PermissionDeniedError''
      then ''Permission denied. Please allow camera access.''
      else if err_name err = ''NotReadableError'' \<or> err_name err = ''TrackStartError''
      then ''Camera is in use by another app.''
      else if err_name err = ''NotFoundError'' \<or> err_name err = ''DevicesNotFoundError''
      then ''No camera found.''
      else if err_message err \<noteq> [] \<and>
              includes_str (err_message err) ''Could not start video source''
      then ''Hardware error: Camera may be busy.''
      else ''Unable to access camera.'')"

definition handleError :: "js_error \<Rightarrow> 'g control_state \<Rightarrow> 'g control_state" where
  "handleError err s = s\<lparr> error := Some (handleError_msg err) \<rparr>"

text \<open>
  \<open>startCamera\<close>: the clean slate, then the three \<open>try\<close> blocks in order; each of the
  first two returns on success and falls through on an exception, the third hands its
  exception to \<open>handleError\<close>. The result is the list of calls made to
  \<open>navigator.mediaDevices\<close>, in order, and the state.
\<close>

definition startCamera ::
  "mediaDevices \<Rightarrow> 'g control_state \<Rightarrow> media_call list \<times> 'g control_state" where
  "startCamera md s =
     (let s0 = (stopCamera s)\<lparr> error := None \<rparr>
      in case getUserMedia md IdealUser320x240 of
           Inr st \<Rightarrow> ([GetUserMedia IdealUser320x240], handleStreamSuccess st s0)
         | Inl e1 \<Rightarrow>
        (case getUserMedia md VideoTrue of
           Inr st \<Rightarrow>
             ([GetUserMedia IdealUser320x240, GetUserMedia VideoTrue], handleStreamSuccess st s0)
         | Inl e2 \<Rightarrow>
        (case enumerateDevices md of
           Inl finalErr \<Rightarrow>
             ([GetUserMedia IdealUser320x240, GetUserMedia VideoTrue, EnumerateDevices],
              handleError finalErr s0)
         | Inr devices \<Rightarrow>
        (case filter (\<lambda>d. kind d = ''videoinput'') devices of
           [] \<Rightarrow>
             ([GetUserMedia IdealUser320x240, GetUserMedia VideoTrue, EnumerateDevices],
              handleError \<lparr> err_name = ''Error'',
                            err_message = ''No video input devices found'' \<rparr> s0)
         | d # ds \<Rightarrow>
        (case getUserMedia md (ExactDeviceId (deviceId d)) of
           Inr st \<Rightarrow>
             ([GetUserMedia IdealUser320x240, GetUserMedia VideoTrue, EnumerateDevices,
               GetUserMedia (ExactDeviceId (deviceId d))],
              handleStreamSuccess st s0)
         | Inl finalErr \<Rightarrow>
             ([GetUserMedia IdealUser320x240, GetUserMedia VideoTrue, EnumerateDevices,
               GetUserMedia (ExactDeviceId (deviceId d))],
              handleError finalErr s0))))))"

subsection \<open>Sampling\<close>

text \<open>
  What a tick of the interval finds: the video's intrinsic size, whether the canvas
  gives a 2D context, and what drawing the frame and encoding it as a JPEG data URL
  yields (the image, or an exception).
\<close>

record tick_env =
  videoWidth :: nat
  videoHeight :: nat
  has_context :: bool
  toDataURL :: "js_error + string"

text \<open>
  \<open>captureAndAnalyze\<close> up to its \<open>await\<close>: the guards; then the busy flag is set, and
  either the frame is captured and submitted (the call is now in flight and the function
  is suspended), or there is no context or the capture raises, and \<open>finally\<close> clears
  the flag in the same turn.
\<close>

definition captureAndAnalyze :: "tick_env \<Rightarrow> 'g control_state \<Rightarrow> 'g control_state" where
  "captureAndAnalyze env s =
     (if \<not> video_mounted s \<or> \<not> canvas_mounted s \<or> \<not> isCameraReady s \<or> isProcessing s then s
      else if videoWidth env = 0 \<or> videoHeight env = 0 then s
      else let s1 = s\<lparr> isProcessing := True \<rparr>
           in if has_context env
              then (case toDataURL env of
                      Inr base64Image \<Rightarrow>
                        s1\<lparr> captures := captures s1 + 1,
                            in_flight := in_flight s1 @ [base64Image] \<rparr>
                    | Inl e \<Rightarrow> s1\<lparr> captures := captures s1 + 1, isProcessing := False \<rparr>)
              else s1\<lparr> isProcessing := False \<rparr>)"

text \<open>
  The rest of \<open>captureAndAnalyze\<close>, run when the promise of the oldest call in flight
  settles: a label is passed to \<open>onGestureDetected\<close>, a rejection is caught and
  logged, and \<open>finally\<close> clears the busy flag in both cases. Without a call in flight
  there is nothing to resume.
\<close>

definition settle :: "js_error + 'g \<Rightarrow> 'g control_state \<Rightarrow> 'g control_state" where
  "settle outcome s =
     (case in_flight s of
        [] \<Rightarrow> s
      | img # rest \<Rightarrow>
          (let s1 = s\<lparr> in_flight := rest \<rparr>;
               s2 = (case outcome of
                       Inr gesture \<Rightarrow> s1\<lparr> detected := detected s1 @ [gesture] \<rparr>
                     | Inl e \<Rightarrow> s1)
           in s2\<lparr> isProcessing := False \<rparr>))"

text \<open>
  Everything that can happen to the component: a tick of the interval (which runs only
  while \<open>isCameraReady\<close> holds), the settling of a call, the start or retry of the
  camera, the metadata event, and the teardown.
\<close>

datatype 'g control_event =
    Tick tick_env
  | Settle "js_error + 'g"
  | StartCamera mediaDevices
  | LoadedMetadata
  | StopCamera

fun control_step :: "'g control_state \<Rightarrow> 'g control_event \<Rightarrow> 'g control_state" where
  "control_step s (Tick env) = (if isCameraReady s then captureAndAnalyze env s else s)"
| "control_step s (Settle outcome) = settle outcome s"
| "control_step s (StartCamera md) = snd (startCamera md s)"
| "control_step s LoadedMetadata = loadedmetadata s"
| "control_step s StopCamera = stopCamera s"

definition control_run :: "'g control_event list \<Rightarrow> 'g control_state \<Rightarrow> 'g control_state" where
  "control_run evs s = foldl control_step s evs"

subsection \<open>Notions used to state the component's properties\<close>

text \<open>
  A camera acquired with stream \<open>st\<close>: the stream is kept, no error is shown, and the
  source becomes ready when the mounted video reports its metadata (and not before). A
  failed acquisition with message \<open>msg\<close>: no stream, not ready, the message shown.
\<close>

definition acquired :: "stream \<Rightarrow> 'g control_state \<Rightarrow> bool" where
  "acquired st t =
     (streamRef t = Some st \<and> error t = None \<and> \<not> isCameraReady t \<and>
      (if video_mounted t
       then srcObject t = Some st \<and> isCameraReady (loadedmetadata t)
       else \<not> isCameraReady (loadedmetadata t)))"

definition failed_with :: "string \<Rightarrow> 'g control_state \<Rightarrow> bool" where
  "failed_with msg t =
     (streamRef t = None \<and> \<not> isCameraReady t \<and> error t = Some msg)"

text \<open>
  The calls of the first two strategies.
\<close>

definition first_two :: "media_call list" where
  "first_two = [GetUserMedia IdealUser320x240, GetUserMedia VideoTrue]"

text \<open>
  The single slot of the sampler: at most one call in flight, and the busy flag is set
  exactly while there is one.
\<close>

definition single_slot :: "'g control_state \<Rightarrow> bool" where
  "single_slot s = (length (in_flight s) \<le> 1 \<and> isProcessing s = (in_flight s \<noteq> []))"

text \<open>
  Concrete inputs: mediaDevices on which the two plain requests fail and the request for
  the one enumerated camera succeeds with stream 7; mediaDevices that refuse every
  request for lack of permission; a tick that finds a 320 by 240 video and a canvas that
  encodes its frame.
\<close>

definition fallback_env :: mediaDevices where
  "fallback_env =
     \<lparr> getUserMedia = (\<lambda>c. if c = ExactDeviceId ''cam0'' then Inr 7
                            else Inl \<lparr> err_name = ''NotReadableError'',
                                       err_message = ''Could not start video source'' \<rparr>),
       enumerateDevices = Inr [\<lparr> kind = ''audioinput'', deviceId = ''mic0'' \<rparr>,
                               \<lparr> kind = ''videoinput'', deviceId = ''cam0'' \<rparr>] \<rparr>"

definition denied_env :: mediaDevices where
  "denied_env =
     \<lparr> getUserMedia = (\<lambda>c. Inl \<lparr> err_name = ''NotAllowedError'',
                                  err_message = ''Permission denied'' \<rparr>),
       enumerateDevices = Inr [\<lparr> kind = ''videoinput'', deviceId = ''cam0'' \<rparr>] \<rparr>"

definition frame_tick :: tick_env where
  "frame_tick = \<lparr> videoWidth = 320, videoHeight = 240, has_context = True,
                   toDataURL = Inr ''data:image/jpeg;base64,AAAA'' \<rparr>"

text \<open>
  Further mediaDevices: every request succeeds; only the constrained request fails;
  nothing is found and the enumeration fails too; only a microphone is enumerated.
\<close>

definition plain_env :: mediaDevices where
  "plain_env =
     \<lparr> getUserMedia = (\<lambda>c. Inr 1),
       enumerateDevices = Inr [\<lparr> kind = ''videoinput'', deviceId = ''cam0'' \<rparr>] \<rparr>"

definition generic_env :: mediaDevices where
  "generic_env =
     \<lparr> getUserMedia = (\<lambda>c. if c = IdealUser320x240
                            then Inl \<lparr> err_name = ''OverconstrainedError'', err_message = '''' \<rparr>
                            else Inr 2),
       enumerateDevices = Inr [\<lparr> kind = ''videoinput'', deviceId = ''cam0'' \<rparr>] \<rparr>"

definition no_enumeration_env :: mediaDevices where
  "no_enumeration_env =
     \<lparr> getUserMedia = (\<lambda>c. Inl \<lparr> err_name = ''NotFoundError'',
                                  err_message = ''Requested device not found'' \<rparr>),
       enumerateDevices = Inl \<lparr> err_name = ''NotFoundError'',
                                err_message = ''Requested device not found'' \<rparr> \<rparr>"

definition audio_only_env :: mediaDevices where
  "audio_only_env =
     \<lparr> getUserMedia = (\<lambda>c. Inl \<lparr> err_name = ''NotFoundError'',
                                  err_message = ''Requested device not found'' \<rparr>),
       enumerateDevices = Inr [\<lparr> kind = ''audioinput'', deviceId = ''mic0'' \<rparr>] \<rparr>"

text \<open>
  The component after the camera has started and the video has reported its metadata,
  and after the first tick has then submitted a frame.
\<close>

definition ready_state :: "GestureType control_state" where
  "ready_state = control_run [StartCamera fallback_env, LoadedMetadata] control_init"

definition busy_state :: "GestureType control_state" where
  "busy_state = control_run [Tick frame_tick] ready_state"

section \<open>The gesture classifier client (services/gemini.ts)\<close>

subsection \<open>Strings and the values of JSON\<close>

text \<open>
  A JavaScript string is a sequence of UTF-16 code units; the model keeps the code units
  as natural numbers, so that the character classes of the regular expressions and the
  \<open>\u\<close> escapes of JSON are exact. \<open>js\<close> turns a literal into its code units.
\<close>

type_synonym jsstring = "nat list"

definition ch :: "char \<Rightarrow> nat" where
  "ch c = of_char c"

definition js :: "string \<Rightarrow> jsstring" where
  "js s = map ch s"

text \<open>
  What \<open>JSON.parse\<close> returns (a number is kept as its lexeme, an object as its members
  in the order of the text), and what a property access yields: a value or
  \<open>undefined\<close>. The members of the enum \<open>GestureType\<close> are the strings of their names.
\<close>

datatype json =
    JNull
  | JBool bool
  | JNumber jsstring
  | JString jsstring
  | JArray "json list"
  | JObject "(jsstring \<times> json) list"

datatype js_value = Undefined | Value json

fun gesture_name :: "GestureType \<Rightarrow> string" where
  "gesture_name FIST = ''FIST''"
| "gesture_name OPEN = ''OPEN''"
| "gesture_name NONE = ''NONE''"

definition gesture_value :: "GestureType \<Rightarrow> js_value" where
  "gesture_value g = Value (JString (js (gesture_name g)))"

subsection \<open>String operations of the client\<close>

text \<open>
  \<open>startsWith\<close>; the class \<open>\s\<close> of a JavaScript regular expression; and the four
  \<open>replace\<close> calls, each with an anchored pattern and the empty replacement:
  \<open>/^data:image\/(png|jpeg|webp);base64,/\<close>, \<open>/^```json\s*/\<close>, \<open>/^```\s*/\<close> and
  \<open>/\s*```$/\<close> (whose leftmost match starts at the white space before the final fence).
\<close>

definition startsWith :: "jsstring \<Rightarrow> jsstring \<Rightarrow> bool" where
  "startsWith s p = (take (length p) s = p)"

definition endsWith :: "jsstring \<Rightarrow> jsstring \<Rightarrow> bool" where
  "endsWith s p = (length p \<le> length s \<and> drop (length s - length p) s = p)"

definition regex_space :: "nat \<Rightarrow> bool" where
  "regex_space c =
     (c = 9 \<or> c = 10 \<or> c = 11 \<or> c = 12 \<or> c = 13 \<or> c = 32 \<or> c = 160 \<or> c = 5760 \<or>
      (8192 \<le> c \<and> c \<le> 8202) \<or> c = 8232 \<or> c = 8233 \<or> c = 8239 \<or> c = 8287 \<or>
      c = 12288 \<or> c = 65279)"

definition remove_prefix_spaces :: "jsstring \<Rightarrow> jsstring \<Rightarrow> jsstring" where
  "remove_prefix_spaces p s =
     (if startsWith s p then dropWhile regex_space (drop (length p) s) else s)"

definition remove_data_url_prefix :: "jsstring \<Rightarrow> jsstring" where
  "remove_data_url_prefix s =
     (if startsWith s (js ''data:image/png;base64,'')
      then drop (length (js ''data:image/png;base64,'')) s
      else if startsWith s (js ''data:image/jpeg;base64,'')
      then drop (length (js ''data:image/jpeg;base64,'')) s
      else if startsWith s (js ''data:image/webp;base64,'')
      then drop (length (js ''data:image/webp;base64,'')) s
      else s)"

definition remove_closing_fence :: "jsstring \<Rightarrow> jsstring" where
  "remove_closing_fence s =
     (if endsWith s (js ''```'')
      then rev (dropWhile regex_space (rev (take (length s - 3) s)))
      else s)"

subsection \<open>\<open>JSON.parse\<close>\<close>

text \<open>
  The JSON grammar as two automata, each one pass over its input. The first reads code
  units and produces tokens: punctuation, strings with their escapes decoded, numbers,
  and the three literal names. White space between tokens is space, tab, line feed and
  carriage return.
\<close>

datatype token =
    TLBrace | TRBrace | TLBracket | TRBracket | TColon | TComma
  | TString jsstring | TNumber jsstring | TTrue | TFalse | TNull

datatype numphase = NMinus | NZero | NInt | NDot | NFrac | NExp | NExpSign | NExpDigits

datatype lexmode =
    Idle
  | InString jsstring
  | InEscape jsstring
  | InUnicode jsstring "nat list"
  | InNumber numphase jsstring
  | InWord jsstring token

definition json_space :: "nat \<Rightarrow> bool" where
  "json_space c = (c = 32 \<or> c = 9 \<or> c = 10 \<or> c = 13)"

definition is_digit :: "nat \<Rightarrow> bool" where
  "is_digit c = (48 \<le> c \<and> c \<le> 57)"

definition hex_digit :: "nat \<Rightarrow> nat option" where
  "hex_digit c =
     (if 48 \<le> c \<and> c \<le> 57 then Some (c - 48)
      else if 97 \<le> c \<and> c \<le> 102 then Some (c - 87)
      else if 65 \<le> c \<and> c \<le> 70 then Some (c - 55)
      else None)"

definition unescape :: "nat \<Rightarrow> nat option" where
  "unescape c =
     (if c = ch CHR ''\"'' then Some 34
      else if c = 92 then Some 92
      else if c = ch CHR ''/'' then Some 47
      else if c = ch CHR ''b'' then Some 8
      else if c = ch CHR ''f'' then Some 12
      else if c = ch CHR ''n'' then Some 10
      else if c = ch CHR ''r'' then Some 13
      else if c = ch CHR ''t'' then Some 9
      else None)"

definition is_exp_mark :: "nat \<Rightarrow> bool" where
  "is_exp_mark c = (c = ch CHR ''e'' \<or> c = ch CHR ''E'')"

fun num_step :: "numphase \<Rightarrow> nat \<Rightarrow> numphase option" where
  "num_step NMinus c =
     (if c = ch CHR ''0'' then Some NZero else if is_digit c then Some NInt else None)"
| "num_step NZero c =
     (if c = ch CHR ''.'' then Some NDot else if is_exp_mark c then Some NExp else None)"
| "num_step NInt c =
     (if is_digit c then Some NInt else if c = ch CHR ''.'' then Some NDot
      else if is_exp_mark c then Some NExp else None)"
| "num_step NDot c = (if is_digit c then Some NFrac else None)"
| "num_step NFrac c =
     (if is_digit c then Some NFrac else if is_exp_mark c then Some NExp else None)"
| "num_step NExp c =
     (if c = ch CHR ''+'' \<or> c = ch CHR ''-'' then Some NExpSign
      else if is_digit c then Some NExpDigits else None)"
| "num_step NExpSign c = (if is_digit c then Some NExpDigits else None)"
| "num_step NExpDigits c = (if is_digit c then Some NExpDigits else None)"

fun num_accepting :: "numphase \<Rightarrow> bool" where
  "num_accepting NZero = True"
| "num_accepting NInt = True"
| "num_accepting NFrac = True"
| "num_accepting NExpDigits = True"
| "num_accepting ph = False"

definition lex_idle :: "nat \<Rightarrow> (token list \<times> lexmode) option" where
  "lex_idle c =
     (if json_space c then Some ([], Idle)
      else if c = ch CHR ''{'' then Some ([TLBrace], Idle)
      else if c = ch CHR ''}'' then Some ([TRBrace], Idle)
      else if c = ch CHR ''['' then Some ([TLBracket], Idle)
      else if c = ch CHR '']'' then Some ([TRBracket], Idle)
      else if c = ch CHR '':'' then Some ([TColon], Idle)
      else if c = ch CHR '','' then Some ([TComma], Idle)
      else if c = ch CHR ''\"'' then Some ([], InString [])
      else if c = ch CHR ''-'' then Some ([], InNumber NMinus [c])
      else if c = ch CHR ''0'' then Some ([], InNumber NZero [c])
      else if is_digit c then Some ([], InNumber NInt [c])
      else if c = ch CHR ''t'' then Some ([], InWord (js ''rue'') TTrue)
      else if c = ch CHR ''f'' then Some ([], InWord (js ''alse'') TFalse)
      else if c = ch CHR ''n'' then Some ([], InWord (js ''ull'') TNull)
      else None)"

fun lex_step :: "lexmode \<Rightarrow> nat \<Rightarrow> (token list \<times> lexmode) option" where
  "lex_step Idle c = lex_idle c"
| "lex_step (InString acc) c =
     (if c = ch CHR ''\"'' then Some ([TString acc], Idle)
      else if c = 92 then Some ([], InEscape acc)
      else if c < 32 then None
      else Some ([], InString (acc @ [c])))"
| "lex_step (InEscape acc) c =
     (if c = ch CHR ''u'' then Some ([], InUnicode acc [])
      else case unescape c of
             Some d \<Rightarrow> Some ([], InString (acc @ [d]))
           | None \<Rightarrow> None)"
| "lex_step (InUnicode acc ds) c =
     (case hex_digit c of
        None \<Rightarrow> None
      | Some h \<Rightarrow>
          if length ds = 3
          then Some ([], InString (acc @ [foldl (\<lambda>a d. 16 * a + d) 0 (ds @ [h])]))
          else Some ([], InUnicode acc (ds @ [h])))"
| "lex_step (InNumber ph acc) c =
     (case num_step ph c of
        Some ph' \<Rightarrow> Some ([], InNumber ph' (acc @ [c]))
      | None \<Rightarrow>
          if num_accepting ph
          then (case lex_idle c of
                  Some (ts, m) \<Rightarrow> Some (TNumber acc # ts, m)
                | None \<Rightarrow> None)
          else None)"
| "lex_step (InWord rest tok) c =
     (case rest of
        [] \<Rightarrow> None
      | x # xs \<Rightarrow>
          if c = x then (if xs = [] then Some ([tok], Idle) else Some ([], InWord xs tok))
          else None)"

fun lex_end :: "lexmode \<Rightarrow> token list option" where
  "lex_end Idle = Some []"
| "lex_end (InNumber ph acc) = (if num_accepting ph then Some [TNumber acc] else None)"
| "lex_end m = None"

fun lex_run :: "lexmode \<Rightarrow> jsstring \<Rightarrow> token list option" where
  "lex_run m [] = lex_end m"
| "lex_run m (c # cs) =
     (case lex_step m c of
        None \<Rightarrow> None
      | Some (ts, m') \<Rightarrow>
          (case lex_run m' cs of None \<Rightarrow> None | Some r \<Rightarrow> Some (ts @ r)))"

text \<open>
  The second automaton reads the tokens with a stack of the arrays and objects under
  construction: an array with its elements so far, an object with its members so far
  (\<open>FObj\<close>), or an object whose member under construction has its key read and its
  value pending (\<open>FObjV\<close>).
\<close>

datatype pframe =
    FArr "json list"
  | FObj "(jsstring \<times> json) list"
  | FObjV "(jsstring \<times> json) list" jsstring

datatype pstate = SValue | SArrStart | SObjStart | SObjKey | SColon jsstring | SAfter | SDone json

fun complete_value :: "json \<Rightarrow> pframe list \<Rightarrow> (pstate \<times> pframe list) option" where
  "complete_value v [] = Some (SDone v, [])"
| "complete_value v (FArr es # st) = Some (SAfter, FArr (es @ [v]) # st)"
| "complete_value v (FObjV ms k # st) = Some (SAfter, FObj (ms @ [(k, v)]) # st)"
| "complete_value v (FObj ms # st) = None"

fun value_start :: "token \<Rightarrow> pframe list \<Rightarrow> (pstate \<times> pframe list) option" where
  "value_start TLBracket st = Some (SArrStart, FArr [] # st)"
| "value_start TLBrace st = Some (SObjStart, FObj [] # st)"
| "value_start (TString s) st = complete_value (JString s) st"
| "value_start (TNumber n) st = complete_value (JNumber n) st"
| "value_start TTrue st = complete_value (JBool True) st"
| "value_start TFalse st = complete_value (JBool False) st"
| "value_start TNull st = complete_value JNull st"
| "value_start tok st = None"

fun parse_step :: "pstate \<Rightarrow> pframe list \<Rightarrow> token \<Rightarrow> (pstate \<times> pframe list) option" where
  "parse_step SValue st tok = value_start tok st"
| "parse_step SArrStart (FArr [] # st) TRBracket = complete_value (JArray []) st"
| "parse_step SArrStart st tok = value_start tok st"
| "parse_step SObjStart st (TString k) = Some (SColon k, st)"
| "parse_step SObjStart (FObj ms # st) TRBrace = complete_value (JObject ms) st"
| "parse_step SObjKey st (TString k) = Some (SColon k, st)"
| "parse_step (SColon k) (FObj ms # st) TColon = Some (SValue, FObjV ms k # st)"
| "parse_step SAfter (FArr es # st) TComma = Some (SValue, FArr es # st)"
| "parse_step SAfter (FArr es # st) TRBracket = complete_value (JArray es) st"
| "parse_step SAfter (FObj ms # st) TComma = Some (SObjKey, FObj ms # st)"
| "parse_step SAfter (FObj ms # st) TRBrace = complete_value (JObject ms) st"
| "parse_step ps st tok = None"

fun parse_end :: "pstate \<Rightarrow> json option" where
  "parse_end (SDone v) = Some v"
| "parse_end ps = None"

fun parse_run :: "pstate \<Rightarrow> pframe list \<Rightarrow> token list \<Rightarrow> json option" where
  "parse_run ps st [] = parse_end ps"
| "parse_run ps st (tok # toks) =
     (case parse_step ps st tok of
        None \<Rightarrow> None
      | Some (ps', st') \<Rightarrow> parse_run ps' st' toks)"

text \<open>\<open>JSON.parse(text)\<close>: the value, or \<open>None\<close> for a \<open>SyntaxError\<close>.\<close>

definition JSON_parse :: "jsstring \<Rightarrow> json option" where
  "JSON_parse text =
     (case lex_run Idle text of
        None \<Rightarrow> None
      | Some toks \<Rightarrow> parse_run SValue [] toks)"

subsection \<open>\<open>detectHandGesture\<close>\<close>

text \<open>
  What the \<open>try\<close> block can throw: the rejection of the API call, the \<open>SyntaxError\<close> of
  \<open>JSON.parse\<close>, and the \<open>TypeError\<close> of reading a property of \<open>null\<close>.
\<close>

datatype caught = ApiError js_error | SyntaxError | TypeError

text \<open>
  \<open>result.gesture\<close>: reading a property of \<open>null\<close> throws; an object yields the value
  of its last member of that name, or \<open>undefined\<close>; a string, number, boolean or array
  has no property \<open>gesture\<close>.
\<close>

fun get_gesture :: "json \<Rightarrow> caught + js_value" where
  "get_gesture JNull = Inl TypeError"
| "get_gesture (JObject ms) =
     (case map_of (rev ms) (js ''gesture'') of
        Some v \<Rightarrow> Inr (Value v)
      | None \<Rightarrow> Inr Undefined)"
| "get_gesture v = Inr Undefined"

text \<open>
  The body of the \<open>try\<close> block. The call \<open>ai.models.generateContent\<close> is the
  environment: given the image data it rejects, or answers with a response whose
  \<open>text\<close> is a string or \<open>undefined\<close>. The cast \<open>as GestureType\<close> is erased by the
  compiler, so the value read from the payload is returned as it is.
\<close>

definition classify_body ::
  "(jsstring \<Rightarrow> js_error + jsstring option) \<Rightarrow> jsstring \<Rightarrow> caught + js_value" where
  "classify_body generateContent base64Image =
     (let cleanBase64 = remove_data_url_prefix base64Image
      in case generateContent cleanBase64 of
           Inl e \<Rightarrow> Inl (ApiError e)
         | Inr response_text \<Rightarrow>
             (let jsonText0 = (case response_text of
                                 None \<Rightarrow> js ''{}''
                               | Some t \<Rightarrow> if t = [] then js ''{}'' else t);
                  jsonText = (if startsWith jsonText0 (js ''```'')
                              then remove_closing_fence
                                     (remove_prefix_spaces (js ''```'')
                                        (remove_prefix_spaces (js ''```json'') jsonText0))
                              else jsonText0)
              in case JSON_parse jsonText of
                   None \<Rightarrow> Inl SyntaxError
                 | Some result \<Rightarrow> get_gesture result))"

text \<open>
  \<open>detectHandGesture\<close>: the value its promise resolves with. The module constant
  \<open>apiKey\<close> is \<open>process.env.API_KEY || ''\<close>; every exception of the \<open>try\<close> block is
  caught and answered with \<open>GestureType.NONE\<close>, so the promise never rejects.
\<close>

definition detectHandGesture ::
  "jsstring \<Rightarrow> (jsstring \<Rightarrow> js_error + jsstring option) \<Rightarrow> jsstring \<Rightarrow> js_value" where
  "detectHandGesture apiKey generateContent base64Image =
     (if apiKey = [] then gesture_value NONE
      else case classify_body generateContent base64Image of
             Inl caught_error \<Rightarrow> gesture_value NONE
           | Inr gesture \<Rightarrow> gesture)"

subsection \<open>Concrete inputs\<close>

text \<open>
  A captured frame as \<open>toDataURL\<close> encodes it, and a payload wrapped in a Markdown
  code fence (the line breaks are line feeds).
\<close>

definition sample_image :: jsstring where
  "sample_image = js ''data:image/jpeg;base64,AAAA''"

definition fenced_payload :: jsstring where
  "fenced_payload = js ''```json'' @ [10] @ js ''{\"gesture\": \"OPEN\"}'' @ [10] @ js ''```''"

section \<open>Double-precision arithmetic of the flower move\<close>

text \<open>
  JavaScript numbers are IEEE-754 binary64 values, and every arithmetic operation
  returns the exact result rounded to the nearest such value, ties going to the even
  significand. The definitions of the engine above compute over the real numbers: they
  are exact where the source compares, selects and copies values, and idealised where
  it adds and multiplies. This section gives the rounding itself and the move of the
  flower branch with every rounding the source performs.

  \<open>round_even\<close> rounds a real number to the nearest integer, a tie to the even one.
  A binary64 value has 53 significant bits; the exponent of a normal value is at least
  \<open>-1022\<close>, and below \<open>2 ^ -1022\<close> the spacing stays \<open>2 ^ -1074\<close> (gradual underflow).
  \<open>double r\<close> is \<open>r\<close> rounded to the binary64 grid at its own exponent. Overflow to an
  infinity is not modelled: \<open>double\<close> is the rounding of the source for results below
  \<open>2 ^ 1024\<close> in magnitude, and a NaN does not arise from finite operands of \<open>+\<close>, \<open>-\<close>
  and \<open>*\<close> below that bound.
\<close>

definition round_even :: "real \<Rightarrow> int" where
  "round_even q =
     (let n = \<lfloor>q\<rfloor>; d = q - of_int n
      in if d < 1 / 2 then n else if 1 / 2 < d then n + 1 else if even n then n else n + 1)"

definition double_exponent :: "real \<Rightarrow> int" where
  "double_exponent r = max \<lfloor>log 2 \<bar>r\<bar>\<rfloor> (- 1022)"

definition double_ulp :: "real \<Rightarrow> real" where
  "double_ulp r = 2 powi (double_exponent r - 52)"

definition double :: "real \<Rightarrow> real" where
  "double r = (if r = 0 then 0 else double_ulp r * of_int (round_even (r / double_ulp r)))"

text \<open>A real number that is a binary64 value: rounding leaves it as it is.\<close>

definition is_double :: "real \<Rightarrow> bool" where
  "is_double r = (double r = r)"

text \<open>
  The move of the flower branch,

  \<^verbatim>\<open>const dx = target.x - p.x; const dy = target.y - p.y;\<close>
  \<^verbatim>\<open>p.vx = dx * 0.05; p.vy = dy * 0.05; p.x += p.vx; p.y += p.vy;\<close>

  with the rounding \<open>fl\<close> applied to the literal \<open>0.05\<close> and to the result of each of
  the six operations. \<open>target\<close> is the pair \<open>calculateFlowerTarget\<close> returned
  (\<open>Math.cos\<close> and \<open>Math.sin\<close> are approximated by the implementation, so the pair is
  taken as it is). With the pointer and the surface size unchanged the same pair is
  computed in every frame, so a run of flower frames applies \<open>flower_move fl target\<close>
  repeatedly to each particle. With \<open>fl\<close> the identity this is the move of
  \<open>flower_update\<close>; with \<open>fl = double\<close> it is the move the program performs.
\<close>

definition flower_move :: "(real \<Rightarrow> real) \<Rightarrow> real \<times> real \<Rightarrow> Particle \<Rightarrow> Particle" where
  "flower_move fl target p =
     (let dx = fl (fst target - p_x p);
          dy = fl (snd target - p_y p);
          vx1 = fl (dx * fl 0.05);
          vy1 = fl (dy * fl 0.05)
      in p\<lparr> p_vx := vx1, p_vy := vy1,
             p_x := fl (p_x p + vx1), p_y := fl (p_y p + vy1) \<rparr>)"

text \<open>
  A particle and a target the program can hold: the four coordinates are binary64
  values, of magnitude at most \<open>2 ^ 1000\<close>, so that no operation of the move overflows.
\<close>

definition double_state :: "real \<times> real \<Rightarrow> Particle \<Rightarrow> bool" where
  "double_state t p =
     (is_double (p_x p) \<and> is_double (p_y p) \<and> is_double (fst t) \<and> is_double (snd t) \<and>
      \<bar>p_x p\<bar> \<le> 2 ^ 1000 \<and> \<bar>p_y p\<bar> \<le> 2 ^ 1000 \<and>
      \<bar>fst t\<bar> \<le> 2 ^ 1000 \<and> \<bar>snd t\<bar> \<le> 2 ^ 1000)"

text \<open>
  A particle at \<open>(1, 0)\<close> and the target one binary64 step to its right,
  \<open>(1 + 2 ^ -52, 0)\<close>.
\<close>

definition stalled_particle :: Particle where
  "stalled_particle = edge_particle\<lparr> p_x := 1, p_y := 0 \<rparr>"

definition stall_target :: "real \<times> real" where
  "stall_target = (4503599627370497 / 2 ^ 52, 0)"

section \<open>Lemmas about double-precision rounding\<close>

lemma round_even_cases:
  "round_even q = \<lfloor>q\<rfloor> \<or> round_even q = \<lfloor>q\<rfloor> + 1"
  by (simp add: round_even_def Let_def)

lemma round_even_error: "\<bar>of_int (round_even q) - q\<bar> \<le> 1 / 2"
  unfolding round_even_def Let_def by (auto simp: abs_if) linarith+

lemma round_even_of_int [simp]: "round_even (of_int n) = n"
  by (simp add: round_even_def)

lemma round_even_mono: "a \<le> b \<Longrightarrow> round_even a \<le> round_even b"
proof -
  assume ab: "a \<le> b"
  have fl: "\<lfloor>a\<rfloor> \<le> \<lfloor>b\<rfloor>" using ab by (rule floor_mono)
  show ?thesis
  proof (cases "\<lfloor>a\<rfloor> = \<lfloor>b\<rfloor>")
    case True
    then show ?thesis using ab
      by (auto simp: round_even_def Let_def)
  next
    case False
    with fl have "\<lfloor>a\<rfloor> + 1 \<le> \<lfloor>b\<rfloor>" by simp
    moreover have "round_even a \<le> \<lfloor>a\<rfloor> + 1" using round_even_cases[of a] by auto
    moreover have "\<lfloor>b\<rfloor> \<le> round_even b" using round_even_cases[of b] by auto
    ultimately show ?thesis by linarith
  qed
qed

lemma round_even_minus: "round_even (- q) = - round_even q"
proof (cases "q = of_int \<lfloor>q\<rfloor>")
  case True
  then have "round_even (- q) = round_even (of_int (- \<lfloor>q\<rfloor>))" by simp
  also have "\<dots> = - \<lfloor>q\<rfloor>" by (rule round_even_of_int)
  also have "\<dots> = - round_even (of_int \<lfloor>q\<rfloor>)" by simp
  finally show ?thesis using True by simp
next
  case False
  have "real_of_int \<lfloor>q\<rfloor> \<le> q" by (rule of_int_floor_le)
  with False have lt: "real_of_int \<lfloor>q\<rfloor> < q" by (metis less_le)
  have c: "real_of_int (- \<lfloor>q\<rfloor> - 1) = - real_of_int \<lfloor>q\<rfloor> - 1" by simp
  have up: "q < real_of_int \<lfloor>q\<rfloor> + 1" by linarith
  have fm: "\<lfloor>- q\<rfloor> = - \<lfloor>q\<rfloor> - 1"
  proof (rule floor_unique)
    show "real_of_int (- \<lfloor>q\<rfloor> - 1) \<le> - q" unfolding c using up by linarith
    show "- q < real_of_int (- \<lfloor>q\<rfloor> - 1) + 1" unfolding c using lt by linarith
  qed
  define n where "n = \<lfloor>q\<rfloor>"
  define d where "d = q - real_of_int n"
  have d: "0 < d" "d < 1" unfolding d_def n_def using lt up by linarith+
  have dm: "- q - real_of_int (- n - 1) = 1 - d" by (simp add: d_def)
  have ev: "even (- n - 1) = odd n" by simp
  show ?thesis
    unfolding round_even_def Let_def fm
    unfolding n_def[symmetric] dm d_def[symmetric] ev
    using d by auto
qed


lemma round_even_nonneg: "0 \<le> q \<Longrightarrow> 0 \<le> round_even q"
  using round_even_mono[of 0 q] round_even_of_int[of 0] by simp

lemma round_even_le_twice: "0 \<le> q \<Longrightarrow> real_of_int (round_even q) \<le> 2 * q"
proof -
  assume q: "0 \<le> q"
  show ?thesis
  proof (cases "q < 1")
    case True
    then have f: "\<lfloor>q\<rfloor> = 0" using q by (simp add: floor_eq_iff)
    show ?thesis unfolding round_even_def Let_def f using q by auto
  next
    case False
    then have "1 \<le> q" by simp
    moreover have "real_of_int (round_even q) \<le> q + 1 / 2"
      using round_even_error[of q] by linarith
    ultimately show ?thesis by linarith
  qed
qed

lemma floor_log2_iff:
  "0 < x \<Longrightarrow> \<lfloor>log 2 x\<rfloor> = k \<longleftrightarrow> 2 powi k \<le> x \<and> x < 2 powi (k + 1)"
  using floor_log_eq_powr_iff[of x 2 k] powr_real_of_int'[of 2 k] powr_real_of_int'[of 2 "k + 1"]
  by simp

lemma exponent_bounds:
  assumes "r \<noteq> 0"
  shows "2 powi \<lfloor>log 2 \<bar>r\<bar>\<rfloor> \<le> \<bar>r\<bar>" "\<bar>r\<bar> < 2 powi (\<lfloor>log 2 \<bar>r\<bar>\<rfloor> + 1)"
  using floor_log2_iff[of "\<bar>r\<bar>" "\<lfloor>log 2 \<bar>r\<bar>\<rfloor>"] assms by simp_all

lemma double_ulp_pos [simp]: "0 < double_ulp r"
  by (simp add: double_ulp_def)

lemma double_ulp_neq0 [simp]: "double_ulp r \<noteq> 0"
  by (simp add: double_ulp_def)

lemma double_ulp_nonneg [simp]: "0 \<le> double_ulp r"
  by (simp add: double_ulp_def)

lemma double_ulp_minus [simp]: "double_ulp (- r) = double_ulp r"
  by (simp add: double_ulp_def double_exponent_def)

lemma double_zero [simp]: "double 0 = 0"
  by (simp add: double_def)

lemma double_minus: "double (- r) = - double r"
  by (simp add: double_def round_even_minus)

lemma double_nonneg: "0 \<le> r \<Longrightarrow> 0 \<le> double r"
proof -
  assume "0 \<le> r"
  then have "0 \<le> round_even (r / double_ulp r)" by (intro round_even_nonneg) simp
  then show ?thesis by (simp add: double_def)
qed

lemma double_le_twice: "0 \<le> r \<Longrightarrow> double r \<le> 2 * r"
proof -
  assume r: "0 \<le> r"
  have "double_ulp r * real_of_int (round_even (r / double_ulp r)) \<le> double_ulp r * (2 * (r / double_ulp r))"
    by (intro mult_left_mono round_even_le_twice) (use r in simp_all)
  then show ?thesis by (simp add: double_def)
qed


lemma pow2_shift:
  fixes k :: int
  shows "(2::real) powi (k - 52) * 2 powi 53 = 2 powi (k + 1)"
    and "(2::real) powi (k - 52) * 2 powi 52 = 2 powi k"
    and "(2::real) powi (k - 52) * (1 / 2) = 2 powi (k - 53)"
    and "(2::real) powi (k - 53) = 2 powi (- 53) * 2 powi k"
proof -
  have a: "(2::real) powi (a + b) = 2 powi a * 2 powi b" for a b :: int
    by (rule power_int_add) simp
  have "k - 52 + 53 = k + 1" by simp
  then show "(2::real) powi (k - 52) * 2 powi 53 = 2 powi (k + 1)"
    using a[of "k - 52" 53] by (simp only:)
  have "k - 52 + 52 = k" by simp
  then show "(2::real) powi (k - 52) * 2 powi 52 = 2 powi k"
    using a[of "k - 52" 52] by (simp only:)
  have h: "(2::real) powi (- 1) = 1 / 2" by (simp add: power_int_minus)
  have "k - 52 + (- 1) = k - 53" by simp
  then show "(2::real) powi (k - 52) * (1 / 2) = 2 powi (k - 53)"
    using a[of "k - 52" "- 1"] h by (simp only:)
  have "- 53 + k = k - 53" by simp
  then show "(2::real) powi (k - 53) = 2 powi (- 53) * 2 powi k"
    using a[of "- 53" k] by (simp only:)
qed

lemma pow2_const:
  "(2::real) powi 53 = real_of_int 9007199254740992"
  "(2::real) powi 52 = real_of_int 4503599627370496"
  by simp_all

lemma double_exponent_ge: "- 1022 \<le> double_exponent r"
  by (simp add: double_exponent_def)

lemma double_exponent_mono:
  assumes "0 < a" "a \<le> b"
  shows "double_exponent a \<le> double_exponent b"
proof -
  have "log 2 a \<le> log 2 b" using assms by simp
  then have "\<lfloor>log 2 a\<rfloor> \<le> \<lfloor>log 2 b\<rfloor>" by (rule floor_mono)
  then show ?thesis using assms by (simp add: double_exponent_def)
qed

lemma double_pos_eq: "r \<noteq> 0 \<Longrightarrow> double r = double_ulp r * real_of_int (round_even (r / double_ulp r))"
  by (simp add: double_def)

lemma double_upper:
  assumes "0 < r"
  shows "double r \<le> 2 powi (double_exponent r + 1)"
proof -
  let ?e = "double_exponent r"
  let ?u = "double_ulp r"
  have fl: "\<lfloor>log 2 \<bar>r\<bar>\<rfloor> + 1 \<le> ?e + 1" by (simp add: double_exponent_def)
  have "r < 2 powi (\<lfloor>log 2 \<bar>r\<bar>\<rfloor> + 1)" using exponent_bounds(2)[of r] assms by simp
  also have "\<dots> \<le> 2 powi (?e + 1)" using fl by (intro power_int_increasing) simp_all
  finally have r: "r < 2 powi (?e + 1)" .
  have u53: "?u * 2 powi 53 = 2 powi (?e + 1)"
    unfolding double_ulp_def by (rule pow2_shift(1))
  have "r \<le> ?u * 2 powi 53" using r unfolding u53 by (rule less_imp_le)
  then have "r \<le> 2 powi 53 * ?u" by (simp only: mult.commute)
  then have "r / ?u \<le> 2 powi 53"
    by (simp only: pos_divide_le_eq[OF double_ulp_pos])
  then have "r / ?u \<le> real_of_int 9007199254740992" by (simp only: pow2_const)
  then have "round_even (r / ?u) \<le> round_even (real_of_int 9007199254740992)"
    by (rule round_even_mono)
  then have "round_even (r / ?u) \<le> 9007199254740992"
    by (simp only: round_even_of_int)
  then have "real_of_int (round_even (r / ?u)) \<le> real_of_int 9007199254740992"
    by (simp only: of_int_le_iff)
  then have "?u * real_of_int (round_even (r / ?u)) \<le> ?u * 2 powi 53"
    unfolding pow2_const by (intro mult_left_mono) simp_all
  then show ?thesis
    using assms unfolding u53 by (simp only: double_pos_eq) 
qed

lemma double_lower:
  assumes "0 < r" "- 1022 \<le> \<lfloor>log 2 \<bar>r\<bar>\<rfloor>"
  shows "2 powi (double_exponent r) \<le> double r"
proof -
  let ?e = "double_exponent r"
  let ?u = "double_ulp r"
  have e: "?e = \<lfloor>log 2 \<bar>r\<bar>\<rfloor>" using assms(2) by (simp add: double_exponent_def)
  have r: "2 powi ?e \<le> r" using exponent_bounds(1)[of r] assms(1) e by simp
  have u52: "?u * 2 powi 52 = 2 powi ?e"
    unfolding double_ulp_def by (rule pow2_shift(2))
  have "2 powi 52 * ?u \<le> r" using r u52 by (simp only: mult.commute)
  then have "2 powi 52 \<le> r / ?u"
    by (simp only: pos_le_divide_eq[OF double_ulp_pos])
  then have "real_of_int 4503599627370496 \<le> r / ?u" by (simp only: pow2_const)
  then have "round_even (real_of_int 4503599627370496) \<le> round_even (r / ?u)"
    by (rule round_even_mono)
  then have "4503599627370496 \<le> round_even (r / ?u)"
    by (simp only: round_even_of_int)
  then have "real_of_int 4503599627370496 \<le> real_of_int (round_even (r / ?u))"
    by (simp only: of_int_le_iff)
  then have "?u * 2 powi 52 \<le> ?u * real_of_int (round_even (r / ?u))"
    unfolding pow2_const by (intro mult_left_mono) simp_all
  then show ?thesis
    using assms(1) unfolding u52 by (simp only: double_pos_eq)
qed

lemma double_mono_pos:
  assumes "0 < a" "a \<le> b"
  shows "double a \<le> double b"
proof -
  have b: "0 < b" using assms by simp
  have le: "double_exponent a \<le> double_exponent b" by (rule double_exponent_mono[OF assms])
  show ?thesis
  proof (cases "double_exponent a = double_exponent b")
    case True
    then have u: "double_ulp a = double_ulp b" by (simp add: double_ulp_def)
    have "a / double_ulp b \<le> b / double_ulp b"
      using assms(2) by (simp add: divide_right_mono)
    then have "round_even (a / double_ulp b) \<le> round_even (b / double_ulp b)"
      by (rule round_even_mono)
    then have "double_ulp b * real_of_int (round_even (a / double_ulp b))
                 \<le> double_ulp b * real_of_int (round_even (b / double_ulp b))"
      by (intro mult_left_mono) simp_all
    then show ?thesis using assms(1) b by (simp add: double_def u)
  next
    case False
    with le have lt: "double_exponent a + 1 \<le> double_exponent b" by simp
    then have "- 1022 < double_exponent b" using double_exponent_ge[of a] by linarith
    then have n: "- 1022 \<le> \<lfloor>log 2 \<bar>b\<bar>\<rfloor>" by (simp add: double_exponent_def max_def split: if_splits)
    have "double a \<le> 2 powi (double_exponent a + 1)" by (rule double_upper[OF assms(1)])
    also have "\<dots> \<le> 2 powi (double_exponent b)"
      using lt by (intro power_int_increasing) simp_all
    also have "\<dots> \<le> double b" by (rule double_lower[OF b n])
    finally show ?thesis .
  qed
qed

lemma double_mono: "a \<le> b \<Longrightarrow> double a \<le> double b"
proof -
  assume ab: "a \<le> b"
  consider "0 < a" | "a \<le> 0" "0 \<le> b" | "b < 0" by linarith
  then show ?thesis
  proof cases
    case 1
    then show ?thesis using ab by (rule double_mono_pos)
  next
    case 2
    have "double a \<le> 0" using double_nonneg[of "- a"] 2(1) by (simp add: double_minus)
    moreover have "0 \<le> double b" using 2(2) by (rule double_nonneg)
    ultimately show ?thesis by linarith
  next
    case 3
    then have "double (- b) \<le> double (- a)" using ab by (intro double_mono_pos) simp_all
    then show ?thesis by (simp add: double_minus)
  qed
qed

lemma double_error: "\<bar>double r - r\<bar> \<le> 2 powi (- 53) * \<bar>r\<bar> + 2 powi (- 1075)"
proof (cases "r = 0")
  case True
  then show ?thesis by simp
next
  case False
  let ?e = "double_exponent r"
  let ?u = "double_ulp r"
  have "double r - r = ?u * (real_of_int (round_even (r / ?u)) - r / ?u)"
    using False by (simp add: double_def algebra_simps)
  then have "\<bar>double r - r\<bar> = ?u * \<bar>real_of_int (round_even (r / ?u)) - r / ?u\<bar>"
    by (simp add: abs_mult)
  also have "\<dots> \<le> ?u * (1 / 2)"
    by (intro mult_left_mono round_even_error) simp
  also have "?u * (1 / 2) = 2 powi (?e - 53)"
    unfolding double_ulp_def by (rule pow2_shift(3))
  finally have h: "\<bar>double r - r\<bar> \<le> 2 powi (?e - 53)" .
  have p1: "0 \<le> (2::real) powi (- 53) * \<bar>r\<bar>" by simp
  have p2: "0 \<le> (2::real) powi (- 1075)" by simp
  show ?thesis
  proof (cases "- 1022 \<le> \<lfloor>log 2 \<bar>r\<bar>\<rfloor>")
    case True
    then have e: "?e = \<lfloor>log 2 \<bar>r\<bar>\<rfloor>" by (simp add: double_exponent_def)
    have "2 powi ?e \<le> \<bar>r\<bar>" using exponent_bounds(1)[OF False] e by simp
    then have "2 powi (- 53) * 2 powi ?e \<le> 2 powi (- 53) * \<bar>r\<bar>"
      by (intro mult_left_mono) simp_all
    then have "2 powi (?e - 53) \<le> 2 powi (- 53) * \<bar>r\<bar>"
      by (simp only: pow2_shift(4)[symmetric])
    with h p2 show ?thesis by linarith
  next
    case False
    then have "?e = - 1022" by (simp add: double_exponent_def)
    then have "2 powi (?e - 53) = (2::real) powi (- 1075)" by simp
    with h p1 show ?thesis by linarith
  qed
qed


lemma floor_log2_less:
  assumes "y \<noteq> 0" "\<bar>y\<bar> < 2 powi (k + 1)"
  shows "\<lfloor>log 2 \<bar>y\<bar>\<rfloor> \<le> k"
proof (rule ccontr)
  assume "\<not> \<lfloor>log 2 \<bar>y\<bar>\<rfloor> \<le> k"
  then have "k + 1 \<le> \<lfloor>log 2 \<bar>y\<bar>\<rfloor>" by simp
  then have "(2::real) powi (k + 1) \<le> 2 powi \<lfloor>log 2 \<bar>y\<bar>\<rfloor>"
    by (intro power_int_increasing) simp_all
  also have "\<dots> \<le> \<bar>y\<bar>" by (rule exponent_bounds(1)[OF assms(1)])
  finally show False using assms(2) by simp
qed

lemma double_eval:
  assumes "2 powi k \<le> \<bar>r\<bar>" "\<bar>r\<bar> < 2 powi (k + 1)" "- 1022 \<le> k"
  shows "double r = 2 powi (k - 52) * real_of_int (round_even (r / 2 powi (k - 52)))"
proof -
  have "0 < (2::real) powi k" by simp
  with assms(1) have pos: "0 < \<bar>r\<bar>" by linarith
  then have r: "r \<noteq> 0" by simp
  have "\<lfloor>log 2 \<bar>r\<bar>\<rfloor> = k" using floor_log2_iff[OF pos, of k] assms(1,2) by simp
  then have "double_exponent r = k" using assms(3) by (simp add: double_exponent_def)
  then show ?thesis using r by (simp add: double_def double_ulp_def)
qed

lemma double_fixed:
  assumes k: "- 1022 \<le> k"
    and lo: "2 powi k \<le> \<bar>y\<bar> \<or> k = - 1022"
    and hi: "\<bar>y\<bar> < 2 powi (k + 1)"
    and y: "y = 2 powi (k - 52) * real_of_int m"
  shows "double y = y"
proof (cases "y = 0")
  case True
  then show ?thesis by simp
next
  case False
  have le: "\<lfloor>log 2 \<bar>y\<bar>\<rfloor> \<le> k" by (rule floor_log2_less[OF False hi])
  have "double_exponent y = k"
  proof (cases "2 powi k \<le> \<bar>y\<bar>")
    case True
    have "0 < \<bar>y\<bar>" using False by simp
    then have "\<lfloor>log 2 \<bar>y\<bar>\<rfloor> = k" using floor_log2_iff[of "\<bar>y\<bar>" k] True hi by simp
    then show ?thesis using k by (simp add: double_exponent_def)
  next
    case False
    with lo have "k = - 1022" by simp
    then show ?thesis using le by (simp add: double_exponent_def)
  qed
  then have u: "double_ulp y = 2 powi (k - 52)" by (simp add: double_ulp_def)
  have "y / double_ulp y = real_of_int m" unfolding u by (simp add: y)
  then have "round_even (y / double_ulp y) = m" by (simp only: round_even_of_int)
  then have "double_ulp y * real_of_int (round_even (y / double_ulp y)) = 2 powi (k - 52) * real_of_int m"
    by (simp only: u)
  then have "double y = 2 powi (k - 52) * real_of_int m"
    using double_pos_eq[OF False] by (simp only:)
  then show ?thesis by (simp only: y[symmetric])
qed

lemma double_idem_pos:
  assumes "0 < r"
  shows "double (double r) = double r"
proof -
  let ?e = "double_exponent r"
  let ?y = "double r"
  have r0: "r \<noteq> 0" using assms by simp
  have y0: "0 \<le> ?y" using assms by (intro double_nonneg) simp
  have yeq: "?y = 2 powi (?e - 52) * real_of_int (round_even (r / double_ulp r))"
    using r0 by (simp add: double_def double_ulp_def)
  have up: "?y \<le> 2 powi (?e + 1)" by (rule double_upper[OF assms])
  show ?thesis
  proof (cases "?y = 2 powi (?e + 1)")
    case True
    have a: "- 1022 \<le> ?e + 1" using double_exponent_ge[of r] by linarith
    have b: "2 powi (?e + 1) \<le> \<bar>?y\<bar> \<or> ?e + 1 = - 1022" using True by simp
    have "(2::real) powi (?e + 1) < 2 powi (?e + 1 + 1)"
      by (intro power_int_strict_increasing) simp_all
    then have c: "\<bar>?y\<bar> < 2 powi (?e + 1 + 1)" using True by simp
    have d: "?y = 2 powi (?e + 1 - 52) * real_of_int 4503599627370496"
      using pow2_shift(2)[of "?e + 1"] True by (simp only: pow2_const)
    show ?thesis by (rule double_fixed[OF a b c d])
  next
    case False
    with up have lt: "\<bar>?y\<bar> < 2 powi (?e + 1)" using y0 by simp
    have lo: "2 powi ?e \<le> \<bar>?y\<bar> \<or> ?e = - 1022"
    proof (cases "?e = - 1022")
      case True
      then show ?thesis by simp
    next
      case False
      then have "- 1022 \<le> \<lfloor>log 2 \<bar>r\<bar>\<rfloor>"
        by (simp add: double_exponent_def max_def split: if_splits)
      from double_lower[OF assms this] y0 show ?thesis by simp
    qed
    show ?thesis by (rule double_fixed[OF double_exponent_ge lo lt yeq])
  qed
qed

lemma double_idem [simp]: "double (double r) = double r"
proof -
  consider "0 < r" | "r = 0" | "r < 0" by linarith
  then show ?thesis
  proof cases
    case 1
    then show ?thesis by (rule double_idem_pos)
  next
    case 2
    then show ?thesis by simp
  next
    case 3
    then have "double (double (- r)) = double (- r)" by (intro double_idem_pos) simp
    then show ?thesis by (simp add: double_minus)
  qed
qed

lemma is_double_double [simp]: "is_double (double r)"
  by (simp add: is_double_def)


lemma double_abs_le_twice: "\<bar>double r\<bar> \<le> 2 * \<bar>r\<bar>"
proof (cases "0 \<le> r")
  case True
  then show ?thesis using double_le_twice[of r] double_nonneg[of r] by simp
next
  case False
  then have "0 \<le> - r" by simp
  from double_le_twice[OF this] double_nonneg[OF this] False show ?thesis
    by (simp add: double_minus)
qed

lemma double_literal_bounds: "0 \<le> double 0.05" "double 0.05 \<le> 0.1"
  using double_nonneg[of "0.05"] double_le_twice[of "0.05"] by simp_all

lemma approach_between:
  assumes "double x = x" "double t = t" "x \<le> t"
  shows "x \<le> double (x + double (double (t - x) * double 0.05))"
    and "double (x + double (double (t - x) * double 0.05)) \<le> t"
proof -
  define D where "D = t - x"
  define c where "c = double 0.05"
  define d where "d = double D"
  define v where "v = double (d * c)"
  have D: "0 \<le> D" using assms(3) by (simp add: D_def)
  have c: "0 \<le> c" "c \<le> 0.1" using double_literal_bounds by (simp_all add: c_def)
  have d: "0 \<le> d" "d \<le> 2 * D"
    unfolding d_def using double_nonneg[OF D] double_le_twice[OF D] by simp_all
  have dc0: "0 \<le> d * c" using d(1) c(1) by simp
  have "d * c \<le> (2 * D) * 0.1"
    using d c D by (intro mult_mono) simp_all
  then have dc: "d * c \<le> 0.2 * D" by simp
  have v: "0 \<le> v" "v \<le> 2 * (d * c)"
    unfolding v_def using double_nonneg[OF dc0] double_le_twice[OF dc0] by simp_all
  have "v \<le> D" using v(2) dc D by linarith
  then have "x + v \<le> t" by (simp add: D_def)
  then have "double (x + v) \<le> double t" by (rule double_mono)
  then show "double (x + double (double (t - x) * double 0.05)) \<le> t"
    unfolding v_def d_def c_def D_def by (simp only: assms(2))
  have "x \<le> x + v" using v(1) by simp
  then have "double x \<le> double (x + v)" by (rule double_mono)
  then show "x \<le> double (x + double (double (t - x) * double 0.05))"
    unfolding v_def d_def c_def D_def by (simp only: assms(1))
qed

lemma approach_minus:
  "double (- x + double (double (- t - (- x)) * double 0.05)) =
     - double (x + double (double (t - x) * double 0.05))"
proof -
  have "- t - (- x) = - (t - x)" by simp
  then have "double (- t - (- x)) = - double (t - x)" by (simp only: double_minus)
  then have "double (double (- t - (- x)) * double 0.05) = - double (double (t - x) * double 0.05)"
    by (simp add: double_minus)
  then have "- x + double (double (- t - (- x)) * double 0.05)
               = - (x + double (double (t - x) * double 0.05))"
    by simp
  then show ?thesis by (simp only: double_minus)
qed

lemma approach_no_overshoot:
  assumes "double x = x" "double t = t"
  shows "\<bar>t - double (x + double (double (t - x) * double 0.05))\<bar> \<le> \<bar>t - x\<bar>"
    and "min x t \<le> double (x + double (double (t - x) * double 0.05))"
    and "double (x + double (double (t - x) * double 0.05)) \<le> max x t"
proof -
  let ?x' = "double (x + double (double (t - x) * double 0.05))"
  have b: "min x t \<le> ?x' \<and> ?x' \<le> max x t"
  proof (cases "x \<le> t")
    case True
    from approach_between[OF assms True] True show ?thesis by simp
  next
    case False
    then have le: "- x \<le> - t" by simp
    have nx: "double (- x) = - x" and nt: "double (- t) = - t"
      using assms by (simp_all add: double_minus)
    from approach_between[OF nx nt le]
    have "- x \<le> - ?x'" "- ?x' \<le> - t" by (simp_all only: approach_minus)
    then show ?thesis using False by simp
  qed
  then show "min x t \<le> ?x'" "?x' \<le> max x t" by simp_all
  from b show "\<bar>t - ?x'\<bar> \<le> \<bar>t - x\<bar>" by (auto simp: min_def max_def abs_if split: if_splits)
qed

lemma pow2_small:
  "(0::real) \<le> 2 powi (- 1075)" "(2::real) powi (- 1075) \<le> 2 powi (- 53) / 4"
  "4 * (2::real) powi (- 1075) = 2 powi (- 1073)" "(0::real) \<le> 2 powi (- 53)"
proof -
  show "(0::real) \<le> 2 powi (- 1075)" "(0::real) \<le> 2 powi (- 53)" by simp_all
  have a: "(2::real) powi (a + b) = 2 powi a * 2 powi b" for a b :: int
    by (rule power_int_add) simp
  have four: "(2::real) powi 2 = 4" by simp
  have e1: "- 1075 + 2 = (- 1073 :: int)" and e2: "- 55 + 2 = (- 53 :: int)" by simp_all
  have p: "(2::real) powi (- 1073) = 2 powi (- 1075) * 4"
    using a[of "- 1075" 2] unfolding e1 four .
  then show "4 * (2::real) powi (- 1075) = 2 powi (- 1073)" by (simp only: mult.commute)
  have q: "(2::real) powi (- 53) = 2 powi (- 55) * 4"
    using a[of "- 55" 2] unfolding e2 four .
  have "(2::real) powi (- 1075) \<le> 2 powi (- 55)"
    by (intro power_int_increasing) simp_all
  then show "(2::real) powi (- 1075) \<le> 2 powi (- 53) / 4" unfolding q by simp
qed

lemma approach_error:
  "\<bar>(t - double (x + double (double (t - x) * double 0.05))) - 0.95 * (t - x)\<bar>
     \<le> 2 powi (- 53) * (\<bar>x\<bar> + \<bar>t - x\<bar>) + 2 powi (- 1073)"
proof -
  define u :: real where "u = 2 powi (- 53)"
  define a :: real where "a = 2 powi (- 1075)"
  define D where "D = t - x"
  define c where "c = double 0.05"
  define d where "d = double D"
  define v where "v = double (d * c)"
  define x' where "x' = double (x + v)"
  have ua: "0 \<le> a" "a \<le> u / 4" "0 \<le> u" and a4: "4 * a = 2 powi (- 1073)"
    unfolding u_def a_def by (rule pow2_small)+
  have e0: "\<bar>c - 0.05\<bar> \<le> u * 0.05 + a"
    using double_error[of "0.05"] by (simp add: u_def a_def c_def)
  have e1: "\<bar>d - D\<bar> \<le> u * \<bar>D\<bar> + a"
    using double_error[of D] by (simp add: u_def a_def d_def)
  have e2: "\<bar>v - d * c\<bar> \<le> u * \<bar>d * c\<bar> + a"
    using double_error[of "d * c"] by (simp add: u_def a_def v_def)
  have e3: "\<bar>x' - (x + v)\<bar> \<le> u * \<bar>x + v\<bar> + a"
    using double_error[of "x + v"] by (simp add: u_def a_def x'_def)
  have dabs: "\<bar>d\<bar> \<le> 2 * \<bar>D\<bar>" unfolding d_def by (rule double_abs_le_twice)
  have cabs: "\<bar>c\<bar> \<le> 0.1" "0 \<le> c" using double_literal_bounds by (simp_all add: c_def)
  have "\<bar>d\<bar> * \<bar>c\<bar> \<le> (2 * \<bar>D\<bar>) * 0.1"
    using dabs cabs(1) by (intro mult_mono) simp_all
  then have dc: "\<bar>d * c\<bar> \<le> 0.2 * \<bar>D\<bar>" by (simp add: abs_mult)
  have "\<bar>v\<bar> \<le> 2 * \<bar>d * c\<bar>" unfolding v_def by (rule double_abs_le_twice)
  then have vabs: "\<bar>v\<bar> \<le> 0.4 * \<bar>D\<bar>" using dc by linarith
  have xv: "\<bar>x + v\<bar> \<le> \<bar>x\<bar> + 0.4 * \<bar>D\<bar>" using vabs by linarith
  have t0: "\<bar>(c - 0.05) * D\<bar> \<le> 0.05 * (u * \<bar>D\<bar>) + a * \<bar>D\<bar>"
  proof -
    have "\<bar>c - 0.05\<bar> * \<bar>D\<bar> \<le> (u * 0.05 + a) * \<bar>D\<bar>"
      using e0 by (intro mult_right_mono) simp_all
    moreover have "\<bar>(c - 0.05) * D\<bar> = \<bar>c - 0.05\<bar> * \<bar>D\<bar>" by (rule abs_mult)
    moreover have "(u * 0.05 + a) * \<bar>D\<bar> = 0.05 * (u * \<bar>D\<bar>) + a * \<bar>D\<bar>"
      by (simp add: algebra_simps)
    ultimately show ?thesis by (simp only:)
  qed
  have t1: "\<bar>(d - D) * c\<bar> \<le> 0.1 * (u * \<bar>D\<bar>) + 0.1 * a"
  proof -
    have "0 \<le> u * \<bar>D\<bar> + a" using ua by simp
    then have "\<bar>d - D\<bar> * \<bar>c\<bar> \<le> (u * \<bar>D\<bar> + a) * 0.1"
      using e1 cabs(1) by (intro mult_mono) simp_all
    moreover have "\<bar>(d - D) * c\<bar> = \<bar>d - D\<bar> * \<bar>c\<bar>" by (rule abs_mult)
    moreover have "(u * \<bar>D\<bar> + a) * 0.1 = 0.1 * (u * \<bar>D\<bar>) + 0.1 * a"
      by (simp add: algebra_simps)
    ultimately show ?thesis by (simp only:)
  qed
  have t2: "\<bar>v - d * c\<bar> \<le> 0.2 * (u * \<bar>D\<bar>) + a"
  proof -
    have "u * \<bar>d * c\<bar> \<le> u * (0.2 * \<bar>D\<bar>)" using dc ua(3) by (intro mult_left_mono)
    moreover have "u * (0.2 * \<bar>D\<bar>) = 0.2 * (u * \<bar>D\<bar>)" by simp
    ultimately show ?thesis using e2 by linarith
  qed
  have t3: "\<bar>x' - (x + v)\<bar> \<le> u * \<bar>x\<bar> + 0.4 * (u * \<bar>D\<bar>) + a"
  proof -
    have "u * \<bar>x + v\<bar> \<le> u * (\<bar>x\<bar> + 0.4 * \<bar>D\<bar>)" using xv ua(3) by (intro mult_left_mono)
    moreover have "u * (\<bar>x\<bar> + 0.4 * \<bar>D\<bar>) = u * \<bar>x\<bar> + 0.4 * (u * \<bar>D\<bar>)"
      by (simp add: algebra_simps)
    ultimately show ?thesis using e3 by linarith
  qed
  have r: "a * \<bar>D\<bar> \<le> (u / 4) * \<bar>D\<bar>" using ua(2) by (intro mult_right_mono) simp_all
  have q: "0 \<le> u * \<bar>D\<bar>" "0 \<le> u * \<bar>x\<bar>" using ua(3) by simp_all
  have id: "(t - x') - 0.95 * D = - ((c - 0.05) * D) - (d - D) * c - (v - d * c) - (x' - (x + v))"
    unfolding D_def by (simp add: field_simps)
  define T0 where "T0 = \<bar>(c - 0.05) * D\<bar>"
  define T1 where "T1 = \<bar>(d - D) * c\<bar>"
  define T2 where "T2 = \<bar>v - d * c\<bar>"
  define T3 where "T3 = \<bar>x' - (x + v)\<bar>"
  define P where "P = u * \<bar>x\<bar>"
  define Q where "Q = u * \<bar>D\<bar>"
  define R where "R = a * \<bar>D\<bar>"
  have b0: "T0 \<le> Q / 20 + R" using t0 by (simp add: T0_def Q_def R_def)
  have b1: "T1 \<le> Q / 10 + a / 10" using t1 by (simp add: T1_def Q_def)
  have b2: "T2 \<le> Q / 5 + a" using t2 by (simp add: T2_def Q_def)
  have b3: "T3 \<le> P + 2 * Q / 5 + a" using t3 by (simp add: T3_def P_def Q_def)
  have b4: "R \<le> Q / 4" using r by (simp add: R_def Q_def)
  have b5: "0 \<le> Q" "0 \<le> P" using q by (simp_all add: P_def Q_def)
  have "\<bar>(t - x') - 0.95 * D\<bar> \<le> T0 + T1 + T2 + T3"
    unfolding id T0_def T1_def T2_def T3_def by linarith
  also have "\<dots> \<le> P + Q + 4 * a"
    using b0 b1 b2 b3 b4 b5 ua(1) by linarith
  finally have "\<bar>(t - x') - 0.95 * D\<bar> \<le> u * (\<bar>x\<bar> + \<bar>D\<bar>) + 4 * a"
    by (simp add: P_def Q_def algebra_simps)
  then show ?thesis
    unfolding a4 unfolding u_def x'_def v_def d_def c_def D_def .
qed

section \<open>Lemmas about the rounded flower move\<close>

lemma flower_move_fields:
  "p_vx (flower_move fl t p) = fl (fl (fst t - p_x p) * fl 0.05)"
  "p_vy (flower_move fl t p) = fl (fl (snd t - p_y p) * fl 0.05)"
  "p_x (flower_move fl t p) = fl (p_x p + fl (fl (fst t - p_x p) * fl 0.05))"
  "p_y (flower_move fl t p) = fl (p_y p + fl (fl (snd t - p_y p) * fl 0.05))"
  by (simp_all add: flower_move_def Let_def)

lemma flower_update_exact_move:
  "flower_update f i n p =
     (flower_move (\<lambda>r. r) (flower_target f i n) p)
       \<lparr> p_color := Hsla (320 + sin (now f i * 0.001 + real i) * 30) 80 60 0.9 \<rparr>"
  by (simp add: flower_update_def flower_move_def flower_target_def Let_def)

lemma dist_to_mono:
  assumes "\<bar>fst t - p_x q\<bar> \<le> \<bar>fst t - p_x p\<bar>" "\<bar>snd t - p_y q\<bar> \<le> \<bar>snd t - p_y p\<bar>"
  shows "dist_to t q \<le> dist_to t p"
proof -
  have "(fst t - p_x q)\<^sup>2 \<le> (fst t - p_x p)\<^sup>2" "(snd t - p_y q)\<^sup>2 \<le> (snd t - p_y p)\<^sup>2"
    using assms by (simp_all add: abs_le_square_iff)
  then show ?thesis by (simp add: dist_to_def add_mono)
qed

lemma between_abs_bound:
  fixes B :: real
  shows "min x t \<le> x' \<Longrightarrow> x' \<le> max x t \<Longrightarrow> \<bar>x\<bar> \<le> B \<Longrightarrow> \<bar>t\<bar> \<le> B \<Longrightarrow> \<bar>x'\<bar> \<le> B"
  by (auto simp: min_def max_def abs_if split: if_splits)

lemma flower_move_bounded:
  assumes "double_state t p"
  shows "\<bar>p_x p\<bar> \<le> B \<Longrightarrow> \<bar>fst t\<bar> \<le> B \<Longrightarrow> \<bar>p_x (flower_move double t p)\<bar> \<le> B"
    and "\<bar>p_y p\<bar> \<le> B \<Longrightarrow> \<bar>snd t\<bar> \<le> B \<Longrightarrow> \<bar>p_y (flower_move double t p)\<bar> \<le> B"
proof -
  from assms have x: "double (p_x p) = p_x p" and y: "double (p_y p) = p_y p"
    and tx: "double (fst t) = fst t" and ty: "double (snd t) = snd t"
    by (simp_all add: double_state_def is_double_def)
  show "\<bar>p_x p\<bar> \<le> B \<Longrightarrow> \<bar>fst t\<bar> \<le> B \<Longrightarrow> \<bar>p_x (flower_move double t p)\<bar> \<le> B"
    unfolding flower_move_fields
    by (rule between_abs_bound[OF approach_no_overshoot(2,3)[OF x tx]])
  show "\<bar>p_y p\<bar> \<le> B \<Longrightarrow> \<bar>snd t\<bar> \<le> B \<Longrightarrow> \<bar>p_y (flower_move double t p)\<bar> \<le> B"
    unfolding flower_move_fields
    by (rule between_abs_bound[OF approach_no_overshoot(2,3)[OF y ty]])
qed

lemma double_state_step:
  assumes "double_state t p"
  shows "double_state t (flower_move double t p)"
proof -
  from assms have r: "\<bar>p_x p\<bar> \<le> 2 ^ 1000" "\<bar>p_y p\<bar> \<le> 2 ^ 1000"
    "\<bar>fst t\<bar> \<le> 2 ^ 1000" "\<bar>snd t\<bar> \<le> 2 ^ 1000"
    and t: "is_double (fst t)" "is_double (snd t)"
    by (simp_all add: double_state_def)
  have bx: "\<bar>p_x (flower_move double t p)\<bar> \<le> 2 ^ 1000"
    by (rule flower_move_bounded(1)[OF assms r(1,3)])
  have by': "\<bar>p_y (flower_move double t p)\<bar> \<le> 2 ^ 1000"
    by (rule flower_move_bounded(2)[OF assms r(2,4)])
  have d: "is_double (p_x (flower_move double t p))" "is_double (p_y (flower_move double t p))"
    by (simp_all add: flower_move_fields is_double_def)
  from bx by' d t r(3,4) show ?thesis
    unfolding double_state_def by blast
qed

lemma double_state_funpow:
  "double_state t p \<Longrightarrow> double_state t ((flower_move double t ^^ n) p)"
  by (induction n) (simp_all add: double_state_step)

lemma flower_move_step:
  assumes "double_state t q"
  shows "\<bar>fst t - p_x (flower_move double t q)\<bar> \<le> \<bar>fst t - p_x q\<bar>"
    and "\<bar>snd t - p_y (flower_move double t q)\<bar> \<le> \<bar>snd t - p_y q\<bar>"
    and "dist_to t (flower_move double t q) \<le> dist_to t q"
proof -
  from assms have x: "double (p_x q) = p_x q" and y: "double (p_y q) = p_y q"
    and tx: "double (fst t) = fst t" and ty: "double (snd t) = snd t"
    by (simp_all add: double_state_def is_double_def)
  show a: "\<bar>fst t - p_x (flower_move double t q)\<bar> \<le> \<bar>fst t - p_x q\<bar>"
    using approach_no_overshoot(1)[OF x tx] by (simp add: flower_move_fields)
  show b: "\<bar>snd t - p_y (flower_move double t q)\<bar> \<le> \<bar>snd t - p_y q\<bar>"
    using approach_no_overshoot(1)[OF y ty] by (simp add: flower_move_fields)
  show "dist_to t (flower_move double t q) \<le> dist_to t q"
    by (rule dist_to_mono[OF a b])
qed

lemma flower_move_dist_funpow:
  "double_state t p \<Longrightarrow> dist_to t ((flower_move double t ^^ n) p) \<le> dist_to t p"
proof (induction n)
  case 0
  show ?case by simp
next
  case (Suc n)
  have "dist_to t ((flower_move double t ^^ Suc n) p)
          \<le> dist_to t ((flower_move double t ^^ n) p)"
    using flower_move_step(3)[OF double_state_funpow[OF Suc.prems, of n]] by simp
  with Suc.IH[OF Suc.prems] show ?case by linarith
qed

lemma flower_move_bounded_funpow:
  assumes "double_state t p"
  shows "\<bar>p_x p\<bar> \<le> B \<Longrightarrow> \<bar>fst t\<bar> \<le> B \<Longrightarrow> \<bar>p_x ((flower_move double t ^^ n) p)\<bar> \<le> B"
    and "\<bar>p_y p\<bar> \<le> B \<Longrightarrow> \<bar>snd t\<bar> \<le> B \<Longrightarrow> \<bar>p_y ((flower_move double t ^^ n) p)\<bar> \<le> B"
proof -
  show "\<bar>p_x p\<bar> \<le> B \<Longrightarrow> \<bar>fst t\<bar> \<le> B \<Longrightarrow> \<bar>p_x ((flower_move double t ^^ n) p)\<bar> \<le> B"
  proof (induction n)
    case 0
    then show ?case by simp
  next
    case (Suc n)
    show ?case
      using flower_move_bounded(1)[OF double_state_funpow[OF assms, of n] Suc.IH[OF Suc.prems] Suc.prems(2)]
      by simp
  qed
  show "\<bar>p_y p\<bar> \<le> B \<Longrightarrow> \<bar>snd t\<bar> \<le> B \<Longrightarrow> \<bar>p_y ((flower_move double t ^^ n) p)\<bar> \<le> B"
  proof (induction n)
    case 0
    then show ?case by simp
  next
    case (Suc n)
    show ?case
      using flower_move_bounded(2)[OF double_state_funpow[OF assms, of n] Suc.IH[OF Suc.prems] Suc.prems(2)]
      by simp
  qed
qed

lemma geometric_floor:
  fixes a :: "nat \<Rightarrow> real"
  assumes step: "\<And>n. a (Suc n) \<le> \<rho> * a n + c"
    and c: "0 \<le> c" and r: "0 \<le> \<rho>" "\<rho> \<le> 24 / 25"
  shows "a n \<le> \<rho> ^ n * a 0 + 25 * c"
proof (induction n)
  case 0
  show ?case using c by simp
next
  case (Suc n)
  have "a (Suc n) \<le> \<rho> * a n + c" by (rule step)
  also have "\<rho> * a n \<le> \<rho> * (\<rho> ^ n * a 0 + 25 * c)"
    by (rule mult_left_mono[OF Suc r(1)])
  also have "\<rho> * (\<rho> ^ n * a 0 + 25 * c) + c = \<rho> ^ Suc n * a 0 + (25 * (\<rho> * c) + c)"
    by (simp add: algebra_simps)
  also have "25 * (\<rho> * c) + c \<le> 25 * c"
  proof -
    have "\<rho> * c \<le> 24 / 25 * c" by (rule mult_right_mono[OF r(2) c])
    then show ?thesis by simp
  qed
  finally show ?case by simp
qed

lemma pow2_m53_small: "(2::real) powi (- 53) \<le> 1 / 100" "0 \<le> (2::real) powi (- 53)"
  "0 \<le> (2::real) powi (- 1073)"
  by (simp_all add: power_int_minus field_simps)

lemma approach_step_bound:
  assumes e: "\<bar>r' - 0.95 * r\<bar> \<le> eps * (ax + \<bar>r\<bar>) + d"
    and ax: "ax \<le> B" and eps: "0 \<le> (eps::real)"
  shows "\<bar>r'\<bar> \<le> (0.95 + eps) * \<bar>r\<bar> + (eps * B + d)"
proof -
  have "\<bar>r'\<bar> \<le> \<bar>r' - 0.95 * r\<bar> + \<bar>0.95 * r\<bar>" by simp
  also have "\<bar>0.95 * r\<bar> = 0.95 * \<bar>r\<bar>" by (simp add: abs_mult)
  finally have 1: "\<bar>r'\<bar> \<le> eps * (ax + \<bar>r\<bar>) + d + 0.95 * \<bar>r\<bar>" using e by simp
  have "eps * ax \<le> eps * B" by (rule mult_left_mono[OF ax eps])
  with 1 show ?thesis by (simp add: algebra_simps)
qed

lemma flower_move_coordinate_decay:
  assumes s: "double_state t p"
  shows "\<bar>p_x p\<bar> \<le> B \<Longrightarrow> \<bar>fst t\<bar> \<le> B \<Longrightarrow>
         \<bar>fst t - p_x ((flower_move double t ^^ n) p)\<bar>
           \<le> (0.95 + 2 powi (- 53)) ^ n * \<bar>fst t - p_x p\<bar>
               + 25 * (2 powi (- 53) * B + 2 powi (- 1073))"
    and "\<bar>p_y p\<bar> \<le> B \<Longrightarrow> \<bar>snd t\<bar> \<le> B \<Longrightarrow>
         \<bar>snd t - p_y ((flower_move double t ^^ n) p)\<bar>
           \<le> (0.95 + 2 powi (- 53)) ^ n * \<bar>snd t - p_y p\<bar>
               + 25 * (2 powi (- 53) * B + 2 powi (- 1073))"
proof -
  define eps :: real where "eps = 2 powi (- 53)"
  define d :: real where "d = 2 powi (- 1073)"
  have eps: "0 \<le> eps" "eps \<le> 1 / 100" and d: "0 \<le> d"
    using pow2_m53_small by (simp_all add: eps_def d_def)
  have rho: "0 \<le> 0.95 + eps" "0.95 + eps \<le> 24 / 25" using eps by simp_all
  {
    assume b: "\<bar>p_x p\<bar> \<le> B" "\<bar>fst t\<bar> \<le> B"
    then have B: "0 \<le> B" by linarith
    have c: "0 \<le> eps * B + d" using eps(1) d B by simp
    define a where "a k = \<bar>fst t - p_x ((flower_move double t ^^ k) p)\<bar>" for k
    have step: "a (Suc k) \<le> (0.95 + eps) * a k + (eps * B + d)" for k
    proof -
      let ?q = "(flower_move double t ^^ k) p"
      have "\<bar>(fst t - p_x (flower_move double t ?q)) - 0.95 * (fst t - p_x ?q)\<bar>
           \<le> eps * (\<bar>p_x ?q\<bar> + \<bar>fst t - p_x ?q\<bar>) + d"
        unfolding flower_move_fields eps_def d_def by (rule approach_error)
      from approach_step_bound[OF this flower_move_bounded_funpow(1)[OF s b, of k] eps(1)]
      show ?thesis by (simp add: a_def)
    qed
    have "a n \<le> (0.95 + eps) ^ n * a 0 + 25 * (eps * B + d)"
      by (rule geometric_floor[of a "0.95 + eps" "eps * B + d", OF step c rho])
    then have "\<bar>fst t - p_x ((flower_move double t ^^ n) p)\<bar>
           \<le> (0.95 + 2 powi (- 53)) ^ n * \<bar>fst t - p_x p\<bar>
               + 25 * (2 powi (- 53) * B + 2 powi (- 1073))"
      by (simp add: a_def eps_def d_def)
  }
  then show "\<bar>p_x p\<bar> \<le> B \<Longrightarrow> \<bar>fst t\<bar> \<le> B \<Longrightarrow>
         \<bar>fst t - p_x ((flower_move double t ^^ n) p)\<bar>
           \<le> (0.95 + 2 powi (- 53)) ^ n * \<bar>fst t - p_x p\<bar>
               + 25 * (2 powi (- 53) * B + 2 powi (- 1073))" .
  {
    assume b: "\<bar>p_y p\<bar> \<le> B" "\<bar>snd t\<bar> \<le> B"
    then have B: "0 \<le> B" by linarith
    have c: "0 \<le> eps * B + d" using eps(1) d B by simp
    define a where "a k = \<bar>snd t - p_y ((flower_move double t ^^ k) p)\<bar>" for k
    have step: "a (Suc k) \<le> (0.95 + eps) * a k + (eps * B + d)" for k
    proof -
      let ?q = "(flower_move double t ^^ k) p"
      have "\<bar>(snd t - p_y (flower_move double t ?q)) - 0.95 * (snd t - p_y ?q)\<bar>
           \<le> eps * (\<bar>p_y ?q\<bar> + \<bar>snd t - p_y ?q\<bar>) + d"
        unfolding flower_move_fields eps_def d_def by (rule approach_error)
      from approach_step_bound[OF this flower_move_bounded_funpow(2)[OF s b, of k] eps(1)]
      show ?thesis by (simp add: a_def)
    qed
    have "a n \<le> (0.95 + eps) ^ n * a 0 + 25 * (eps * B + d)"
      by (rule geometric_floor[of a "0.95 + eps" "eps * B + d", OF step c rho])
    then have "\<bar>snd t - p_y ((flower_move double t ^^ n) p)\<bar>
           \<le> (0.95 + 2 powi (- 53)) ^ n * \<bar>snd t - p_y p\<bar>
               + 25 * (2 powi (- 53) * B + 2 powi (- 1073))"
      by (simp add: a_def eps_def d_def)
  }
  then show "\<bar>p_y p\<bar> \<le> B \<Longrightarrow> \<bar>snd t\<bar> \<le> B \<Longrightarrow>
         \<bar>snd t - p_y ((flower_move double t ^^ n) p)\<bar>
           \<le> (0.95 + 2 powi (- 53)) ^ n * \<bar>snd t - p_y p\<bar>
               + 25 * (2 powi (- 53) * B + 2 powi (- 1073))" .
qed

section \<open>The rounded flower move on concrete inputs\<close>

text \<open>
  The roundings of the first two moves of \<open>edge_particle\<close> towards \<open>(610, 300)\<close> and of
  the move of \<open>stalled_particle\<close>, each computed from the definition of \<open>double\<close>.
\<close>

lemma double_gain: "double (0.05) = 3602879701896397 / 2 ^ 56"
proof -
  have "double (0.05) =
      2 powi (- 5 - 52) * real_of_int (round_even ((0.05) / 2 powi (- 5 - 52)))"
    by (rule double_eval) (simp_all add: power_int_minus)
  also have "\<dots> = 3602879701896397 / 2 ^ 56"
    by (simp add: round_even_def Let_def power_int_minus)
  finally show ?thesis .
qed

lemma double_edge_dx1: "double (610 - 0.5) = 1219 / 2"
proof -
  have "double (610 - 0.5) =
      2 powi (9 - 52) * real_of_int (round_even ((610 - 0.5) / 2 powi (9 - 52)))"
    by (rule double_eval) (simp_all add: power_int_minus)
  also have "\<dots> = 1219 / 2"
    by (simp add: round_even_def Let_def power_int_minus)
  finally show ?thesis .
qed

lemma double_edge_vx1: "double (1219 / 2 * (3602879701896397 / 2 ^ 56)) = 4288974957628621 / 2 ^ 47"
proof -
  have "double (1219 / 2 * (3602879701896397 / 2 ^ 56)) =
      2 powi (4 - 52) * real_of_int (round_even ((1219 / 2 * (3602879701896397 / 2 ^ 56)) / 2 powi (4 - 52)))"
    by (rule double_eval) (simp_all add: power_int_minus)
  also have "\<dots> = 4288974957628621 / 2 ^ 47"
    by (simp add: round_even_def Let_def power_int_minus)
  finally show ?thesis .
qed

lemma double_edge_x1: "double (0.5 + 4288974957628621 / 2 ^ 47) = 4359343701806285 / 2 ^ 47"
proof -
  have "double (0.5 + 4288974957628621 / 2 ^ 47) =
      2 powi (4 - 52) * real_of_int (round_even ((0.5 + 4288974957628621 / 2 ^ 47) / 2 powi (4 - 52)))"
    by (rule double_eval) (simp_all add: power_int_minus)
  also have "\<dots> = 4359343701806285 / 2 ^ 47"
    by (simp add: round_even_def Let_def power_int_minus)
  finally show ?thesis .
qed

lemma double_edge_dx2: "double (610 - 4359343701806285 / 2 ^ 47) = 5093157762183987 / 2 ^ 43"
proof -
  have "double (610 - 4359343701806285 / 2 ^ 47) =
      2 powi (9 - 52) * real_of_int (round_even ((610 - 4359343701806285 / 2 ^ 47) / 2 powi (9 - 52)))"
    by (rule double_eval) (simp_all add: power_int_minus)
  also have "\<dots> = 5093157762183987 / 2 ^ 43"
    by (simp add: round_even_def Let_def power_int_minus)
  finally show ?thesis .
qed

lemma double_edge_vx2: "double (5093157762183987 / 2 ^ 43 * (3602879701896397 / 2 ^ 56)) = 2037263104873595 / 2 ^ 46"
proof -
  have "double (5093157762183987 / 2 ^ 43 * (3602879701896397 / 2 ^ 56)) =
      2 powi (4 - 52) * real_of_int (round_even ((5093157762183987 / 2 ^ 43 * (3602879701896397 / 2 ^ 56)) / 2 powi (4 - 52)))"
    by (rule double_eval) (simp_all add: power_int_minus)
  also have "\<dots> = 2037263104873595 / 2 ^ 46"
    by (simp add: round_even_def Let_def power_int_minus)
  finally show ?thesis .
qed

lemma double_edge_x2: "double (4359343701806285 / 2 ^ 47 + 2037263104873595 / 2 ^ 46) = 8433869911553475 / 2 ^ 47"
proof -
  have "double (4359343701806285 / 2 ^ 47 + 2037263104873595 / 2 ^ 46) =
      2 powi (5 - 52) * real_of_int (round_even ((4359343701806285 / 2 ^ 47 + 2037263104873595 / 2 ^ 46) / 2 powi (5 - 52)))"
    by (rule double_eval) (simp_all add: power_int_minus)
  also have "\<dots> = 8433869911553475 / 2 ^ 47"
    by (simp add: round_even_def Let_def power_int_minus)
  finally show ?thesis .
qed

lemma double_edge_rem2: "double (610 - 8433869911553475 / 2 ^ 47) = 1209624968518697 / 2 ^ 41"
proof -
  have "double (610 - 8433869911553475 / 2 ^ 47) =
      2 powi (9 - 52) * real_of_int (round_even ((610 - 8433869911553475 / 2 ^ 47) / 2 powi (9 - 52)))"
    by (rule double_eval) (simp_all add: power_int_minus)
  also have "\<dots> = 1209624968518697 / 2 ^ 41"
    by (simp add: round_even_def Let_def power_int_minus)
  finally show ?thesis .
qed

lemma double_ratio: "double (0.95) = 4278419646001971 / 2 ^ 52"
proof -
  have "double (0.95) =
      2 powi (- 1 - 52) * real_of_int (round_even ((0.95) / 2 powi (- 1 - 52)))"
    by (rule double_eval) (simp_all add: power_int_minus)
  also have "\<dots> = 4278419646001971 / 2 ^ 52"
    by (simp add: round_even_def Let_def power_int_minus)
  finally show ?thesis .
qed

lemma double_edge_expected2: "double (4278419646001971 / 2 ^ 52 * (5093157762183987 / 2 ^ 43)) = 4838499874074787 / 2 ^ 43"
proof -
  have "double (4278419646001971 / 2 ^ 52 * (5093157762183987 / 2 ^ 43)) =
      2 powi (9 - 52) * real_of_int (round_even ((4278419646001971 / 2 ^ 52 * (5093157762183987 / 2 ^ 43)) / 2 powi (9 - 52)))"
    by (rule double_eval) (simp_all add: power_int_minus)
  also have "\<dots> = 4838499874074787 / 2 ^ 43"
    by (simp add: round_even_def Let_def power_int_minus)
  finally show ?thesis .
qed

lemma double_half: "double (0.5) = 0.5"
proof -
  have "double (0.5) =
      2 powi (- 1 - 52) * real_of_int (round_even ((0.5) / 2 powi (- 1 - 52)))"
    by (rule double_eval) (simp_all add: power_int_minus)
  also have "\<dots> = 0.5"
    by (simp add: round_even_def Let_def power_int_minus)
  finally show ?thesis .
qed

lemma double_100: "double (100) = 100"
proof -
  have "double (100) =
      2 powi (6 - 52) * real_of_int (round_even ((100) / 2 powi (6 - 52)))"
    by (rule double_eval) (simp_all add: power_int_minus)
  also have "\<dots> = 100"
    by (simp add: round_even_def Let_def power_int_minus)
  finally show ?thesis .
qed

lemma double_610: "double (610) = 610"
proof -
  have "double (610) =
      2 powi (9 - 52) * real_of_int (round_even ((610) / 2 powi (9 - 52)))"
    by (rule double_eval) (simp_all add: power_int_minus)
  also have "\<dots> = 610"
    by (simp add: round_even_def Let_def power_int_minus)
  finally show ?thesis .
qed

lemma double_300: "double (300) = 300"
proof -
  have "double (300) =
      2 powi (8 - 52) * real_of_int (round_even ((300) / 2 powi (8 - 52)))"
    by (rule double_eval) (simp_all add: power_int_minus)
  also have "\<dots> = 300"
    by (simp add: round_even_def Let_def power_int_minus)
  finally show ?thesis .
qed

lemma double_stall_dx: "double (4503599627370497 / 2 ^ 52 - 1) = 1 / 2 ^ 52"
proof -
  have "double (4503599627370497 / 2 ^ 52 - 1) =
      2 powi (- 52 - 52) * real_of_int (round_even ((4503599627370497 / 2 ^ 52 - 1) / 2 powi (- 52 - 52)))"
    by (rule double_eval) (simp_all add: power_int_minus)
  also have "\<dots> = 1 / 2 ^ 52"
    by (simp add: round_even_def Let_def power_int_minus)
  finally show ?thesis .
qed

lemma double_stall_vx: "double (1 / 2 ^ 52 * (3602879701896397 / 2 ^ 56)) = 3602879701896397 / 2 ^ 108"
proof -
  have "double (1 / 2 ^ 52 * (3602879701896397 / 2 ^ 56)) =
      2 powi (- 57 - 52) * real_of_int (round_even ((1 / 2 ^ 52 * (3602879701896397 / 2 ^ 56)) / 2 powi (- 57 - 52)))"
    by (rule double_eval) (simp_all add: power_int_minus)
  also have "\<dots> = 3602879701896397 / 2 ^ 108"
    by (simp add: round_even_def Let_def power_int_minus)
  finally show ?thesis .
qed

lemma double_stall_x: "double (1 + 3602879701896397 / 2 ^ 108) = 1"
proof -
  have "double (1 + 3602879701896397 / 2 ^ 108) =
      2 powi (0 - 52) * real_of_int (round_even ((1 + 3602879701896397 / 2 ^ 108) / 2 powi (0 - 52)))"
    by (rule double_eval) (simp_all add: power_int_minus)
  also have "\<dots> = 1"
    by (simp add: round_even_def Let_def power_int_minus)
  finally show ?thesis .
qed

lemma double_stall_target: "double (4503599627370497 / 2 ^ 52) = 4503599627370497 / 2 ^ 52"
proof -
  have "double (4503599627370497 / 2 ^ 52) =
      2 powi (0 - 52) * real_of_int (round_even ((4503599627370497 / 2 ^ 52) / 2 powi (0 - 52)))"
    by (rule double_eval) (simp_all add: power_int_minus)
  also have "\<dots> = 4503599627370497 / 2 ^ 52"
    by (simp add: round_even_def Let_def power_int_minus)
  finally show ?thesis .
qed

lemma edge_particle_fields:
  "p_x edge_particle = 0.5" "p_y edge_particle = 100"
  by (simp_all add: edge_particle_def)

lemma edge_first_step:
  "p_x (flower_move double (610, 300) edge_particle) = 4359343701806285 / 2 ^ 47"
  by (simp only: flower_move_fields fst_conv edge_particle_fields double_gain
        double_edge_dx1 double_edge_vx1 double_edge_x1)

lemma edge_second_step:
  "p_x (flower_move double (610, 300) (flower_move double (610, 300) edge_particle)) =
     8433869911553475 / 2 ^ 47"
  by (simp only: flower_move_fields[of double _ "flower_move double (610, 300) edge_particle"]
        edge_first_step fst_conv double_gain double_edge_dx2 double_edge_vx2 double_edge_x2)

lemma stalled_particle_fields:
  "p_x stalled_particle = 1" "p_y stalled_particle = 0"
  by (simp_all add: stalled_particle_def)

lemma stalled_position:
  "p_x ((flower_move double stall_target ^^ n) stalled_particle) = 1 \<and>
   p_y ((flower_move double stall_target ^^ n) stalled_particle) = 0"
proof (induction n)
  case 0
  show ?case by (simp add: stalled_particle_fields)
next
  case (Suc n)
  have x: "p_x ((flower_move double stall_target ^^ Suc n) stalled_particle) = 1"
    using Suc
    by (simp only: funpow.simps o_apply flower_move_fields stall_target_def fst_conv
          double_gain double_stall_dx double_stall_vx double_stall_x)
  have y: "p_y ((flower_move double stall_target ^^ Suc n) stalled_particle) = 0"
    using Suc by (simp add: flower_move_fields stall_target_def)
  from x y show ?case by simp
qed

lemma stalled_distance:
  "dist_to stall_target ((flower_move double stall_target ^^ n) stalled_particle) = 1 / 2 ^ 52"
proof -
  have "dist_to stall_target ((flower_move double stall_target ^^ n) stalled_particle)
          = sqrt ((4503599627370497 / 2 ^ 52 - 1)\<^sup>2 + 0\<^sup>2)"
    using stalled_position[of n] by (simp add: dist_to_def stall_target_def)
  also have "(4503599627370497 / 2 ^ 52 - 1 :: real) = 1 / 2 ^ 52" by simp
  also have "sqrt ((1 / 2 ^ 52 :: real)\<^sup>2 + 0\<^sup>2) = 1 / 2 ^ 52" by simp
  finally show ?thesis .
qed

lemma double_one: "double 1 = 1"
proof -
  have "double 1 = 2 powi (0 - 52) * real_of_int (round_even (1 / 2 powi (0 - 52)))"
    by (rule double_eval) (simp_all add: power_int_minus)
  also have "\<dots> = 1"
    by (simp add: round_even_def Let_def power_int_minus)
  finally show ?thesis .
qed

lemma double_state_stalled: "double_state stall_target stalled_particle"
proof -
  have "is_double (p_x stalled_particle)" "is_double (p_y stalled_particle)"
    "is_double (fst stall_target)" "is_double (snd stall_target)"
    by (simp_all only: is_double_def stalled_particle_fields stall_target_def fst_conv snd_conv
          double_one double_zero double_stall_target)
  then show ?thesis
    by (simp add: double_state_def stalled_particle_fields stall_target_def)
qed

lemma double_state_edge: "double_state (610, 300) edge_particle"
proof -
  have "is_double (p_x edge_particle)" "is_double (p_y edge_particle)"
    "is_double (fst (610, 300))" "is_double (snd (610, 300))"
    by (simp_all only: is_double_def edge_particle_fields fst_conv snd_conv
          double_half double_100 double_610 double_300)
  then show ?thesis
    by (simp add: double_state_def edge_particle_fields)
qed

section \<open>Lemmas about the particle engine\<close>

lemma p_size_update_particle [simp]: "p_size (update_particle fm f i n p) = p_size p"
  by (simp add: update_particle_def flower_update_def open_update_def Let_def)

lemma forEach_particle_Inr:
  "forEach_particle fm f n i ps = Inr qs \<Longrightarrow> qs = updated fm f n i ps \<and> drawable ps"
proof (induction ps arbitrary: i qs)
  case Nil
  then show ?case by (simp add: updated_def drawable_def)
next
  case (Cons p ps)
  from Cons.prems obtain rs where
    sz: "\<not> p_size p < 0" and
    rs: "forEach_particle fm f n (Suc i) ps = Inr rs" and
    qs: "qs = update_particle fm f i n p # rs"
    by (auto simp: Let_def draw_particle_def split: if_splits sum.splits)
  from Cons.IH[OF rs] have "rs = updated fm f n (Suc i) ps" "drawable ps" by simp_all
  with sz qs show ?case by (simp add: updated_def drawable_def)
qed

lemma forEach_particle_drawable:
  "drawable ps \<Longrightarrow> forEach_particle fm f n i ps = Inr (updated fm f n i ps)"
proof (induction ps arbitrary: i)
  case Nil
  then show ?case by (simp add: updated_def)
next
  case (Cons p ps)
  then have "0 \<le> p_size p" "drawable ps" by (simp_all add: drawable_def)
  with Cons.IH[of "Suc i"] show ?case
    by (simp add: Let_def draw_particle_def updated_def)
qed

lemma length_updated [simp]: "length (updated fm f n i ps) = length ps"
  by (simp add: updated_def)

lemma nth_updated:
  "k < length ps \<Longrightarrow> updated fm f n i ps ! k = update_particle fm f (i + k) n (ps ! k)"
  by (simp add: updated_def nth_enumerate_eq)

lemma drawable_updated: "drawable ps \<Longrightarrow> drawable (updated fm f n i ps)"
  by (auto simp: drawable_def updated_def list_all_iff enumerate_eq_zip dest: set_zip_rightD)

lemma animate_Inr:
  assumes "animate g f ps = Inr qs"
  shows "length qs = length ps"
    and "has_canvas f \<Longrightarrow> has_ctx f \<Longrightarrow> i < length ps \<Longrightarrow>
           qs ! i = update_particle (g = FIST) f i (length ps) (ps ! i)"
proof -
  show "length qs = length ps"
    using assms by (auto simp: animate_def Let_def split: if_splits dest!: forEach_particle_Inr)
  show "qs ! i = update_particle (g = FIST) f i (length ps) (ps ! i)"
    if "has_canvas f" "has_ctx f" "i < length ps"
    using assms that by (auto simp: animate_def Let_def nth_updated dest!: forEach_particle_Inr)
qed

lemma animate_drawable:
  "drawable ps \<Longrightarrow> \<exists>qs. animate g f ps = Inr qs \<and> drawable qs \<and> length qs = length ps"
  by (simp add: animate_def Let_def forEach_particle_drawable drawable_updated)

lemma animate_single:
  "has_canvas f \<Longrightarrow> has_ctx f \<Longrightarrow> 0 \<le> p_size p \<Longrightarrow>
   animate g f [p] = Inr [update_particle (g = FIST) f 0 1 p]"
  by (simp add: animate_def Let_def draw_particle_def)

lemma run_frames_drawable:
  "drawable ps \<Longrightarrow> \<exists>qs. run_frames fs ps = Inr qs \<and> drawable qs \<and> length qs = length ps"
proof (induction fs arbitrary: ps)
  case Nil
  then show ?case by simp
next
  case (Cons gf fs)
  obtain g f where gf: "gf = (g, f)" by (cases gf)
  from animate_drawable[OF Cons.prems, of g f] obtain qs where
    qs: "animate g f ps = Inr qs" "drawable qs" "length qs = length ps" by blast
  from Cons.IH[OF qs(2)] qs(1,3) show ?case by (simp add: gf)
qed

lemma run_frames_Inr_length: "run_frames fs ps = Inr qs \<Longrightarrow> length qs = length ps"
proof (induction fs arbitrary: ps)
  case Nil
  then show ?case by simp
next
  case (Cons gf fs)
  obtain g f where gf: "gf = (g, f)" by (cases gf)
  from Cons.prems gf obtain rs where rs: "animate g f ps = Inr rs" "run_frames fs rs = Inr qs"
    by (auto split: sum.splits)
  from Cons.IH[OF rs(2)] animate_Inr(1)[OF rs(1)] show ?case by simp
qed

lemma drawable_initParticles:
  "(\<And>k. 0 \<le> rnd k) \<Longrightarrow> drawable (initParticles rnd w h)"
  by (simp add: drawable_def initParticles_def initParticle_def list_all_iff)

lemma nth_initParticles:
  "i < particleCount \<Longrightarrow> initParticles rnd w h ! i = initParticle rnd w h i"
  by (simp add: initParticles_def)


lemma flower_update_x:
  "p_x (flower_update f i n p) = p_x p + 0.05 * (fst (flower_target f i n) - p_x p)"
  by (simp add: flower_update_def flower_target_def Let_def)

lemma flower_update_y:
  "p_y (flower_update f i n p) = p_y p + 0.05 * (snd (flower_target f i n) - p_y p)"
  by (simp add: flower_update_def flower_target_def Let_def)

lemma flower_update_vx:
  "p_vx (flower_update f i n p) = 0.05 * (fst (flower_target f i n) - p_x p)"
  by (simp add: flower_update_def flower_target_def Let_def)

lemma flower_update_vy:
  "p_vy (flower_update f i n p) = 0.05 * (snd (flower_target f i n) - p_y p)"
  by (simp add: flower_update_def flower_target_def Let_def)

lemma open_update_bounds:
  "0 \<le> p_x (open_update f i p) \<and> p_x (open_update f i p) \<le> real (width f) \<and>
   0 \<le> p_y (open_update f i p) \<and> p_y (open_update f i p) \<le> real (height f)"
  by (simp add: open_update_def Let_def)







lemma drawable_edge: "drawable [edge_particle]"
  by (simp add: drawable_def edge_particle_def)

lemma flower_frame_demo: "flower_frame demo_frame (FIST, demo_frame)"
  by (simp add: flower_frame_def same_view_def demo_frame_def)


lemma flower_target_zero_area:
  "width f = 0 \<or> height f = 0 \<Longrightarrow> flower_target f i n = (mouse_x f, mouse_y f)"
  by (auto simp: flower_target_def calculateFlowerTarget_def Let_def min_def)

lemma open_update_zero_area:
  "width f = 0 \<Longrightarrow> p_x (open_update f i p) = 0"
  "height f = 0 \<Longrightarrow> p_y (open_update f i p) = 0"
  by (simp_all add: open_update_def Let_def)

lemma update_colour:
  "p_color (flower_update f i n p) = Hsla (320 + sin (now f i * 0.001 + real i) * 30) 80 60 0.9"
  "p_color (open_update f i p) = Hsla (180 + sin (now f i * 0.001 + real i) * 30) 80 60 0.8"
  by (simp_all add: flower_update_def open_update_def Let_def)

section \<open>Claims about the particle engine\<close>

text \<open>
  C1, as the code has it. In open mode (the gesture is \<open>OPEN\<close> or \<open>NONE\<close>), after a
  frame every particle's coordinates lie in the closed ranges: \<open>0 \<le> x \<le> width\<close> and
  \<open>0 \<le> y \<le> height\<close>. The wrap sets a coordinate below 0 to the bound itself and
  resets only a coordinate strictly above the bound, so the bound is attained.
\<close>

theorem open_mode_wrap_closed_bounds:
  assumes "has_canvas f" "has_ctx f" "g = OPEN \<or> g = NONE"
    and "animate g f ps = Inr qs" "i < length ps"
  shows "0 \<le> p_x (qs ! i) \<and> p_x (qs ! i) \<le> real (width f) \<and>
         0 \<le> p_y (qs ! i) \<and> p_y (qs ! i) \<le> real (height f)"
proof -
  from assms(3) have "g \<noteq> FIST" by auto
  with animate_Inr(2)[OF assms(4) assms(1,2,5)]
  have "qs ! i = open_update f i (ps ! i)" by (simp add: update_particle_def)
  then show ?thesis by (simp only: open_update_bounds)
qed

text \<open>
  The theorem at a concrete frame: the particle of \<open>edge_particle\<close> on the 800 by 600
  surface.
\<close>

theorem open_mode_wrap_closed_bounds_witness:
  "\<exists>qs. animate OPEN demo_frame [edge_particle] = Inr qs \<and>
        0 \<le> p_x (qs ! 0) \<and> p_x (qs ! 0) \<le> 800 \<and> 0 \<le> p_y (qs ! 0) \<and> p_y (qs ! 0) \<le> 600"
proof -
  obtain qs where qs: "animate OPEN demo_frame [edge_particle] = Inr qs"
    by (simp add: animate_single demo_frame_def edge_particle_def)
  have "has_canvas demo_frame" "has_ctx demo_frame" "OPEN = OPEN \<or> OPEN = NONE"
    "0 < length [edge_particle]"
    by (simp_all add: demo_frame_def)
  from open_mode_wrap_closed_bounds[OF this(1,2,3) qs this(4)] qs
  show ?thesis by (simp add: demo_frame_def)
qed

text \<open>
  C1 as stated (\<open>x < width\<close>) fails: a particle at \<open>x = 0.5\<close> with velocity \<open>-1\<close>
  and no noise moves to \<open>-0.5\<close>, is wrapped to \<open>x = width = 800\<close>, and stays there
  since \<open>800 > 800\<close> is false.
\<close>

theorem open_mode_wrap_counterexample:
  "positions (animate OPEN demo_frame [edge_particle]) = Inr [(800, 100)] \<and>
   \<not> (800 < real (width demo_frame))"
  by (simp add: positions_def animate_single demo_frame_def edge_particle_def
      update_particle_def open_update_def Let_def)

text \<open>
  C6. \<open>calculateFlowerTarget\<close> depends on its six arguments only, and for a
  positive \<open>total\<close> it returns the point of the rose curve of the specification:
  \<open>(centerX + scale \<cdot> cos(5\<theta>) \<cdot> cos \<theta>, centerY + scale \<cdot> cos(5\<theta>) \<cdot> sin \<theta>)\<close> with
  \<open>\<theta> = (index / total) \<cdot> 8\<pi>\<close> and \<open>scale = 0.35 \<cdot> min(width, height)\<close>. The angle
  starts at 0, grows by \<open>8\<pi> / total\<close> per index and reaches four full turns at
  \<open>index = total\<close>, so the indices below \<open>total\<close> sweep \<open>[0, 4 \<cdot> 2\<pi>)\<close>.
\<close>

theorem calculateFlowerTarget_rose_curve:
  assumes "0 < totalCount"
  shows "calculateFlowerTarget index totalCount centerX centerY w h =
           rose_point (rose_scale w h) (rose_theta index totalCount) centerX centerY \<and>
         rose_theta 0 totalCount = 0 \<and>
         rose_theta totalCount totalCount = 4 * (2 * pi) \<and>
         rose_theta (index + 1) totalCount - rose_theta index totalCount = 4 * (2 * pi) / totalCount \<and>
         (0 \<le> index \<and> index < totalCount \<longrightarrow>
            0 \<le> rose_theta index totalCount \<and> rose_theta index totalCount < 4 * (2 * pi))"
proof -
  have "calculateFlowerTarget index totalCount centerX centerY w h =
           rose_point (rose_scale w h) (rose_theta index totalCount) centerX centerY"
    by (simp add: calculateFlowerTarget_def rose_point_def rose_scale_def rose_theta_def Let_def
        algebra_simps)
  moreover have "rose_theta 0 totalCount = 0" "rose_theta totalCount totalCount = 4 * (2 * pi)"
    using assms by (simp_all add: rose_theta_def)
  moreover have "rose_theta (index + 1) totalCount - rose_theta index totalCount
                   = 4 * (2 * pi) / totalCount"
    using assms by (simp add: rose_theta_def field_simps)
  moreover have "0 \<le> index \<and> index < totalCount \<longrightarrow>
            0 \<le> rose_theta index totalCount \<and> rose_theta index totalCount < 4 * (2 * pi)"
    using assms by (simp add: rose_theta_def field_simps)
  ultimately show ?thesis by blast
qed

text \<open>
  The theorem for 1200 particles on the 800 by 600 surface: particle 0 aims at the tip
  of a petal, 210 units right of the centre, and particle 300 is one full turn on.
\<close>

theorem calculateFlowerTarget_rose_curve_witness:
  "(0::real) < 1200 \<and>
   calculateFlowerTarget 0 1200 400 300 800 600 = (610, 300) \<and>
   rose_point (rose_scale 800 600) (rose_theta 0 1200) 400 300 = (610, 300) \<and>
   rose_theta 1200 1200 = 8 * pi \<and>
   (0::real) \<le> 300 \<and> (300::real) < 1200 \<and>
   rose_theta 300 1200 = 2 * pi \<and>
   0 \<le> rose_theta 300 1200 \<and> rose_theta 300 1200 < 4 * (2 * pi) \<and>
   rose_theta 301 1200 - rose_theta 300 1200 = 8 * pi / 1200"
proof -
  have pos: "(0::real) < 1200" by simp
  have a: "calculateFlowerTarget 0 1200 400 300 800 600 = (610, 300)"
    "rose_point (rose_scale 800 600) (rose_theta 0 1200) 400 300 = (610, 300)"
    using calculateFlowerTarget_rose_curve[OF pos, of 0 400 300 800 600]
    by (simp_all add: rose_point_def rose_scale_def)
  have b: "rose_theta 1200 1200 = 8 * pi"
    "0 \<le> rose_theta 300 1200 \<and> rose_theta 300 1200 < 4 * (2 * pi)"
    "rose_theta 301 1200 - rose_theta 300 1200 = 8 * pi / 1200"
    using calculateFlowerTarget_rose_curve[OF pos, of 300 400 300 800 600]
    by simp_all
  have c: "rose_theta 300 1200 = 2 * pi"
    by (simp add: rose_theta_def)
  from a b c show ?thesis by simp
qed

text \<open>
  C7, as the program computes it. In flower mode with a stationary pointer and a fixed
  surface size the target \<open>t\<close> of a particle is the same in every frame, and each frame
  applies \<open>flower_move double t\<close> to it. For a particle and a target that are binary64
  values of magnitude at most \<open>B\<close>, after any number \<open>n\<close> of such frames one more frame
  overwrites the velocity with the rounded product of the rounded displacement and the
  rounded \<open>0.05\<close>, and adds it to the position, rounding again. The remaining
  displacement in each coordinate is then 0.95 times the previous one up to a rounding
  error of at most \<open>2 ^ -53\<close> times the sum of the magnitudes of position and
  displacement, plus \<open>2 ^ -1073\<close>. It never grows in magnitude, so the distance to the
  target never increases, in one frame and over the run. After \<open>n\<close> frames the
  displacement in each coordinate is at most \<open>(0.95 + 2 ^ -53) ^ n\<close> times the initial
  one plus a floor of \<open>25 \<cdot> (2 ^ -53 \<cdot> B + 2 ^ -1073)\<close>. The particle and the target remain
  binary64 values within the bound.
\<close>

theorem flower_mode_rounded_decay:
  assumes state: "double_state t p"
    and bound: "\<bar>p_x p\<bar> \<le> B" "\<bar>p_y p\<bar> \<le> B" "\<bar>fst t\<bar> \<le> B" "\<bar>snd t\<bar> \<le> B"
  shows "p_vx (flower_move double t ((flower_move double t ^^ n) p)) = double (double (fst t - p_x ((flower_move double t ^^ n) p)) * double 0.05) \<and>
         p_vy (flower_move double t ((flower_move double t ^^ n) p)) = double (double (snd t - p_y ((flower_move double t ^^ n) p)) * double 0.05) \<and>
         p_x (flower_move double t ((flower_move double t ^^ n) p)) = double (p_x ((flower_move double t ^^ n) p) + p_vx (flower_move double t ((flower_move double t ^^ n) p))) \<and>
         p_y (flower_move double t ((flower_move double t ^^ n) p)) = double (p_y ((flower_move double t ^^ n) p) + p_vy (flower_move double t ((flower_move double t ^^ n) p))) \<and>
         \<bar>(fst t - p_x (flower_move double t ((flower_move double t ^^ n) p))) - 0.95 * (fst t - p_x ((flower_move double t ^^ n) p))\<bar>
           \<le> 2 powi (- 53) * (\<bar>p_x ((flower_move double t ^^ n) p)\<bar> + \<bar>fst t - p_x ((flower_move double t ^^ n) p)\<bar>) + 2 powi (- 1073) \<and>
         \<bar>(snd t - p_y (flower_move double t ((flower_move double t ^^ n) p))) - 0.95 * (snd t - p_y ((flower_move double t ^^ n) p))\<bar>
           \<le> 2 powi (- 53) * (\<bar>p_y ((flower_move double t ^^ n) p)\<bar> + \<bar>snd t - p_y ((flower_move double t ^^ n) p)\<bar>) + 2 powi (- 1073) \<and>
         \<bar>fst t - p_x (flower_move double t ((flower_move double t ^^ n) p))\<bar> \<le> \<bar>fst t - p_x ((flower_move double t ^^ n) p)\<bar> \<and>
         \<bar>snd t - p_y (flower_move double t ((flower_move double t ^^ n) p))\<bar> \<le> \<bar>snd t - p_y ((flower_move double t ^^ n) p)\<bar> \<and>
         dist_to t (flower_move double t ((flower_move double t ^^ n) p)) \<le> dist_to t ((flower_move double t ^^ n) p) \<and>
         dist_to t ((flower_move double t ^^ n) p) \<le> dist_to t p \<and>
         \<bar>fst t - p_x ((flower_move double t ^^ n) p)\<bar>
           \<le> (0.95 + 2 powi (- 53)) ^ n * \<bar>fst t - p_x p\<bar>
               + 25 * (2 powi (- 53) * B + 2 powi (- 1073)) \<and>
         \<bar>snd t - p_y ((flower_move double t ^^ n) p)\<bar>
           \<le> (0.95 + 2 powi (- 53)) ^ n * \<bar>snd t - p_y p\<bar>
               + 25 * (2 powi (- 53) * B + 2 powi (- 1073)) \<and>
         \<bar>p_x ((flower_move double t ^^ n) p)\<bar> \<le> B \<and> \<bar>p_y ((flower_move double t ^^ n) p)\<bar> \<le> B \<and>
         double_state t (flower_move double t ((flower_move double t ^^ n) p))"
proof -
  let ?q = "(flower_move double t ^^ n) p"
  have s: "double_state t ?q" by (rule double_state_funpow[OF state])
  note f = flower_move_fields[of double t ?q]
  have v: "p_vx (flower_move double t ?q) = double (double (fst t - p_x ?q) * double 0.05)"
    "p_vy (flower_move double t ?q) = double (double (snd t - p_y ?q) * double 0.05)"
    "p_x (flower_move double t ?q) = double (p_x ?q + p_vx (flower_move double t ?q))"
    "p_y (flower_move double t ?q) = double (p_y ?q + p_vy (flower_move double t ?q))"
    by (simp_all only: f)
  have ex: "\<bar>(fst t - p_x (flower_move double t ?q)) - 0.95 * (fst t - p_x ?q)\<bar>
           \<le> 2 powi (- 53) * (\<bar>p_x ?q\<bar> + \<bar>fst t - p_x ?q\<bar>) + 2 powi (- 1073)"
    unfolding f by (rule approach_error)
  have ey: "\<bar>(snd t - p_y (flower_move double t ?q)) - 0.95 * (snd t - p_y ?q)\<bar>
           \<le> 2 powi (- 53) * (\<bar>p_y ?q\<bar> + \<bar>snd t - p_y ?q\<bar>) + 2 powi (- 1073)"
    unfolding f by (rule approach_error)
  note st = flower_move_step[OF s]
  note run = flower_move_dist_funpow[OF state, of n]
  note dx = flower_move_coordinate_decay(1)[OF state bound(1,3), of n]
  note dy = flower_move_coordinate_decay(2)[OF state bound(2,4), of n]
  note bx = flower_move_bounded_funpow(1)[OF state bound(1,3), of n]
  note by' = flower_move_bounded_funpow(2)[OF state bound(2,4), of n]
  note nx = double_state_step[OF s]
  from v ex ey st run dx dy bx by' nx show ?thesis by blast
qed

text \<open>
  The theorem for \<open>edge_particle\<close> and the target \<open>(610, 300)\<close>, which is the flower
  target of a single particle on the 800 by 600 surface with the pointer in the middle:
  the first frame, and the frame after 199 frames.
\<close>

theorem flower_mode_rounded_decay_witness:
  "double_state (610, 300) edge_particle \<and>
   \<bar>p_x edge_particle\<bar> \<le> 610 \<and> \<bar>p_y edge_particle\<bar> \<le> 610 \<and>
   \<bar>fst (610 :: real, 300 :: real)\<bar> \<le> 610 \<and> \<bar>snd (610 :: real, 300 :: real)\<bar> \<le> 610 \<and>
   flower_target demo_frame 0 1 = (610, 300) \<and>
   p_vx (flower_move double (610, 300) edge_particle) = 4288974957628621 / 2 ^ 47 \<and>
   p_x (flower_move double (610, 300) edge_particle) = 4359343701806285 / 2 ^ 47 \<and>
   \<bar>(610 - p_x (flower_move double (610, 300) edge_particle)) - 0.95 * (610 - p_x edge_particle)\<bar>
      \<le> 2 powi (- 53) * (\<bar>p_x edge_particle\<bar> + \<bar>610 - p_x edge_particle\<bar>) + 2 powi (- 1073) \<and>
   \<bar>610 - p_x (flower_move double (610, 300) edge_particle)\<bar> \<le> \<bar>610 - p_x edge_particle\<bar> \<and>
   dist_to (610, 300) (flower_move double (610, 300) edge_particle)
      \<le> dist_to (610, 300) edge_particle \<and>
   dist_to (610, 300) ((flower_move double (610, 300) ^^ 200) edge_particle)
      \<le> dist_to (610, 300) ((flower_move double (610, 300) ^^ 199) edge_particle) \<and>
   dist_to (610, 300) ((flower_move double (610, 300) ^^ 199) edge_particle)
      \<le> dist_to (610, 300) edge_particle \<and>
   \<bar>610 - p_x ((flower_move double (610, 300) ^^ 199) edge_particle)\<bar>
      \<le> (0.95 + 2 powi (- 53)) ^ 199 * \<bar>610 - p_x edge_particle\<bar>
          + 25 * (2 powi (- 53) * 610 + 2 powi (- 1073)) \<and>
   double_state (610, 300) ((flower_move double (610, 300) ^^ 200) edge_particle)"
proof -
  note s = double_state_edge
  have b: "\<bar>p_x edge_particle\<bar> \<le> 610" "\<bar>p_y edge_particle\<bar> \<le> 610"
    "\<bar>fst (610 :: real, 300 :: real)\<bar> \<le> 610" "\<bar>snd (610 :: real, 300 :: real)\<bar> \<le> 610"
    by (simp_all add: edge_particle_fields)
  have t: "flower_target demo_frame 0 1 = (610, 300)"
    by (simp add: flower_target_def calculateFlowerTarget_def demo_frame_def Let_def)
  note one = flower_mode_rounded_decay[OF s b, of 0, unfolded funpow_0 fst_conv snd_conv]
  note many = flower_mode_rounded_decay[OF s b, of 199, unfolded fst_conv snd_conv]
  have v: "p_vx (flower_move double (610, 300) edge_particle) = 4288974957628621 / 2 ^ 47"
    by (simp only: flower_move_fields fst_conv edge_particle_fields double_gain
        double_edge_dx1 double_edge_vx1)
  have n200: "(200::nat) = Suc 199" by simp
  have f: "(flower_move double (610, 300) ^^ 200) edge_particle =
      flower_move double (610, 300) ((flower_move double (610, 300) ^^ 199) edge_particle)"
    by (simp only: n200 funpow.simps o_apply)
  from s b t v edge_first_step one many show ?thesis unfolding f by blast
qed

text \<open>
  C7 as stated fails in the arithmetic of the program. For \<open>edge_particle\<close> and the
  target \<open>(610, 300)\<close>: after one frame the remaining horizontal displacement is
  \<open>81490524194943795 / 2 ^ 47\<close>, which is not 0.95 times the initial displacement
  609.5; and after two frames the displacement the program computes, 550.07375, is not
  the product the program computes from 0.95 and the displacement after one frame,
  550.0737499999999. For \<open>stalled_particle\<close>, one binary64 step from its target, the
  velocity is too small to change the position: the distance to the target is
  \<open>2 ^ -52\<close> after every number of frames, so it does not decay.
\<close>

theorem flower_mode_exact_ratio_counterexample:
  "610 - p_x (flower_move double (610, 300) edge_particle) = 81490524194943795 / 2 ^ 47 \<and>
   0.95 * (610 - p_x edge_particle) = 23161 / 40 \<and>
   610 - p_x (flower_move double (610, 300) edge_particle) \<noteq> 0.95 * (610 - p_x edge_particle) \<and>
   double (610 - p_x (flower_move double (610, 300) (flower_move double (610, 300) edge_particle)))
     = 1209624968518697 / 2 ^ 41 \<and>
   double (double 0.95 * double (610 - p_x (flower_move double (610, 300) edge_particle)))
     = 4838499874074787 / 2 ^ 43 \<and>
   double (610 - p_x (flower_move double (610, 300) (flower_move double (610, 300) edge_particle)))
     \<noteq> double (double 0.95 * double (610 - p_x (flower_move double (610, 300) edge_particle))) \<and>
   double_state stall_target stalled_particle \<and>
   (\<forall>n. dist_to stall_target ((flower_move double stall_target ^^ n) stalled_particle) = 1 / 2 ^ 52)"
proof -
  have a: "610 - p_x (flower_move double (610, 300) edge_particle) = 81490524194943795 / 2 ^ 47"
    by (simp add: edge_first_step)
  have b: "0.95 * (610 - p_x edge_particle) = 23161 / 40"
    by (simp add: edge_particle_fields)
  have c: "610 - p_x (flower_move double (610, 300) edge_particle) \<noteq> 0.95 * (610 - p_x edge_particle)"
    unfolding a b by simp
  have d: "double (610 - p_x (flower_move double (610, 300) (flower_move double (610, 300) edge_particle)))
     = 1209624968518697 / 2 ^ 41"
    by (simp only: edge_second_step double_edge_rem2)
  have e: "double (double 0.95 * double (610 - p_x (flower_move double (610, 300) edge_particle)))
     = 4838499874074787 / 2 ^ 43"
    by (simp only: edge_first_step double_ratio double_edge_dx2 double_edge_expected2)
  have f: "double (610 - p_x (flower_move double (610, 300) (flower_move double (610, 300) edge_particle)))
     \<noteq> double (double 0.95 * double (610 - p_x (flower_move double (610, 300) edge_particle)))"
    unfolding d e by simp
  from a b c d e f double_state_stalled stalled_distance show ?thesis by blast
qed

text \<open>
  C8, as the code has it. Every frame that is drawn has a canvas and a 2D context (the
  effect returns before it defines \<open>animate\<close> when either is missing), and \<open>animate\<close>
  has no test of the size. On a surface of zero area the frame is not skipped: on a
  drawable population it raises nothing, keeps the number of particles, and updates
  every particle by the rules of any other frame. With zero area the flower target of
  every particle is the pointer, so in flower mode the velocity of particle \<open>i\<close> becomes
  0.05 times its displacement to the pointer and is added to its position; in open mode
  its horizontal position becomes 0 when the width is 0 and its vertical position 0 when
  the height is 0; its colour is computed anew in both modes.
\<close>

theorem animate_zero_area_updates:
  assumes surface: "has_canvas f" "has_ctx f"
    and zero: "width f = 0 \<or> height f = 0"
    and ps: "drawable ps"
    and i: "i < length ps"
  shows "animate g f ps = Inr (updated (g = FIST) f (length ps) 0 ps) \<and>
         length (updated (g = FIST) f (length ps) 0 ps) = length ps \<and>
         updated (g = FIST) f (length ps) 0 ps ! i =
           update_particle (g = FIST) f i (length ps) (ps ! i) \<and>
         flower_target f i (length ps) = (mouse_x f, mouse_y f) \<and>
         (g = FIST \<longrightarrow>
            p_vx (updated True f (length ps) 0 ps ! i) = 0.05 * (mouse_x f - p_x (ps ! i)) \<and>
            p_vy (updated True f (length ps) 0 ps ! i) = 0.05 * (mouse_y f - p_y (ps ! i)) \<and>
            p_x (updated True f (length ps) 0 ps ! i) =
              p_x (ps ! i) + 0.05 * (mouse_x f - p_x (ps ! i)) \<and>
            p_y (updated True f (length ps) 0 ps ! i) =
              p_y (ps ! i) + 0.05 * (mouse_y f - p_y (ps ! i)) \<and>
            p_color (updated True f (length ps) 0 ps ! i) =
              Hsla (320 + sin (now f i * 0.001 + real i) * 30) 80 60 0.9) \<and>
         (g \<noteq> FIST \<longrightarrow>
            (width f = 0 \<longrightarrow> p_x (updated False f (length ps) 0 ps ! i) = 0) \<and>
            (height f = 0 \<longrightarrow> p_y (updated False f (length ps) 0 ps ! i) = 0) \<and>
            p_color (updated False f (length ps) 0 ps ! i) =
              Hsla (180 + sin (now f i * 0.001 + real i) * 30) 80 60 0.8)"
proof -
  have a: "animate g f ps = Inr (updated (g = FIST) f (length ps) 0 ps)"
    by (simp add: animate_def surface forEach_particle_drawable[OF ps])
  have n: "updated fm f (length ps) 0 ps ! i = update_particle fm f i (length ps) (ps ! i)" for fm
    using nth_updated[OF i, of fm f "length ps" 0] by simp
  have t: "flower_target f i (length ps) = (mouse_x f, mouse_y f)"
    by (rule flower_target_zero_area[OF zero])
  have fl: "p_vx (updated True f (length ps) 0 ps ! i) = 0.05 * (mouse_x f - p_x (ps ! i))"
    "p_vy (updated True f (length ps) 0 ps ! i) = 0.05 * (mouse_y f - p_y (ps ! i))"
    "p_x (updated True f (length ps) 0 ps ! i) = p_x (ps ! i) + 0.05 * (mouse_x f - p_x (ps ! i))"
    "p_y (updated True f (length ps) 0 ps ! i) = p_y (ps ! i) + 0.05 * (mouse_y f - p_y (ps ! i))"
    "p_color (updated True f (length ps) 0 ps ! i) =
       Hsla (320 + sin (now f i * 0.001 + real i) * 30) 80 60 0.9"
    by (simp_all add: n update_particle_def flower_update_vx flower_update_vy flower_update_x
        flower_update_y t update_colour)
  have op: "width f = 0 \<longrightarrow> p_x (updated False f (length ps) 0 ps ! i) = 0"
    "height f = 0 \<longrightarrow> p_y (updated False f (length ps) 0 ps ! i) = 0"
    "p_color (updated False f (length ps) 0 ps ! i) =
       Hsla (180 + sin (now f i * 0.001 + real i) * 30) 80 60 0.8"
    by (simp_all add: n update_particle_def open_update_zero_area update_colour)
  have l: "length (updated (g = FIST) f (length ps) 0 ps) = length ps" by simp
  from a l n[of "g = FIST"] t fl op show ?thesis by blast
qed

text \<open>
  The theorem for \<open>edge_particle\<close> on the surface without size, in flower mode and in
  open mode.
\<close>

theorem animate_zero_area_updates_witness:
  "has_canvas unsized_frame \<and> has_ctx unsized_frame \<and>
   width unsized_frame = 0 \<and> height unsized_frame = 0 \<and>
   drawable [edge_particle] \<and>
   animate FIST unsized_frame [edge_particle] = Inr (updated True unsized_frame 1 0 [edge_particle]) \<and>
   updated True unsized_frame 1 0 [edge_particle] ! 0 = update_particle True unsized_frame 0 1 edge_particle \<and>
   flower_target unsized_frame 0 1 = (0, 0) \<and>
   p_x edge_particle = 0.5 \<and> p_vx edge_particle = - 1 \<and>
   p_x (updated True unsized_frame 1 0 [edge_particle] ! 0) = 0.475 \<and>
   p_vx (updated True unsized_frame 1 0 [edge_particle] ! 0) = - 0.025 \<and>
   p_color (updated True unsized_frame 1 0 [edge_particle] ! 0) = Hsla 320 80 60 0.9 \<and>
   animate OPEN unsized_frame [edge_particle] = Inr (updated False unsized_frame 1 0 [edge_particle]) \<and>
   p_y edge_particle = 100 \<and>
   p_x (updated False unsized_frame 1 0 [edge_particle] ! 0) = 0 \<and>
   p_y (updated False unsized_frame 1 0 [edge_particle] ! 0) = 0 \<and>
   p_color (updated False unsized_frame 1 0 [edge_particle] ! 0) = Hsla 180 80 60 0.8"
proof -
  have s: "has_canvas unsized_frame" "has_ctx unsized_frame"
    and z: "width unsized_frame = 0" "height unsized_frame = 0"
    and m: "mouse_x unsized_frame = 0" "mouse_y unsized_frame = 0" "now unsized_frame 0 = 0"
    by (simp_all add: unsized_frame_def)
  have zz: "width unsized_frame = 0 \<or> height unsized_frame = 0" using z by simp
  have i: "0 < length [edge_particle]" by simp
  have e: "p_x edge_particle = 0.5" "p_vx edge_particle = - 1" "p_y edge_particle = 100"
    by (simp_all add: edge_particle_def)
  note fist = animate_zero_area_updates[OF s zz drawable_edge i, of FIST]
  note opn = animate_zero_area_updates[OF s zz drawable_edge i, of OPEN]
  have f1: "animate FIST unsized_frame [edge_particle] = Inr (updated True unsized_frame 1 0 [edge_particle])"
    "updated True unsized_frame 1 0 [edge_particle] ! 0 = update_particle True unsized_frame 0 1 edge_particle"
    "flower_target unsized_frame 0 1 = (0, 0)"
    "p_x (updated True unsized_frame 1 0 [edge_particle] ! 0) = 0.475"
    "p_vx (updated True unsized_frame 1 0 [edge_particle] ! 0) = - 0.025"
    "p_color (updated True unsized_frame 1 0 [edge_particle] ! 0) = Hsla 320 80 60 0.9"
    using fist by (auto simp: m e)
  have o1: "animate OPEN unsized_frame [edge_particle] = Inr (updated False unsized_frame 1 0 [edge_particle])"
    "p_x (updated False unsized_frame 1 0 [edge_particle] ! 0) = 0"
    "p_y (updated False unsized_frame 1 0 [edge_particle] ! 0) = 0"
    "p_color (updated False unsized_frame 1 0 [edge_particle] ! 0) = Hsla 180 80 60 0.8"
    using opn by (auto simp: m z)
  from s z drawable_edge f1 e o1 show ?thesis by blast
qed

text \<open>
  C8 as stated fails: on the surface of width 0 and height 0, one open-mode frame over
  the population that \<open>handleResize\<close> has just created changes particle 0: its
  horizontal velocity goes from 0 to 10 (it sits on the pointer and is repelled) and its
  colour from the initial \<open>rgba\<close> to an \<open>hsla\<close> value.
\<close>

theorem zero_area_step_counterexample:
  "width unsized_frame = 0 \<and> height unsized_frame = 0 \<and>
   map_sum id (\<lambda>qs. (p_vx (qs ! 0), p_color (qs ! 0)))
     (animate NONE unsized_frame (handleResize half_draws 0 0 [])) =
     Inr (10, Hsla 180 80 60 0.8) \<and>
   (p_vx (handleResize half_draws 0 0 [] ! 0), p_color (handleResize half_draws 0 0 [] ! 0)) =
     (0, Rgba 100 200 255 0.8)"
proof -
  let ?pop = "initParticles half_draws 0 0"
  let ?p = "initParticle half_draws 0 0 0"
  have pop: "handleResize half_draws 0 0 [] = ?pop"
    by (simp add: handleResize_def)
  have d: "drawable ?pop" by (rule drawable_initParticles) (simp add: half_draws_def)
  have l: "0 < length ?pop" by (simp add: initParticles_def particleCount_def)
  have p0: "?pop ! 0 = ?p"
    by (rule nth_initParticles) (simp add: particleCount_def)
  have s: "has_canvas unsized_frame" "has_ctx unsized_frame"
    by (simp_all add: unsized_frame_def)
  have a: "animate NONE unsized_frame ?pop = Inr (updated False unsized_frame (length ?pop) 0 ?pop)"
    by (simp add: animate_def s forEach_particle_drawable[OF d])
  have u: "updated False unsized_frame (length ?pop) 0 ?pop ! 0 = open_update unsized_frame 0 ?p"
    using nth_updated[OF l, of False unsized_frame "length ?pop" 0]
    by (simp add: p0 update_particle_def)
  have v: "p_vx (open_update unsized_frame 0 ?p) = 10"
    by (simp add: open_update_def initParticle_def unsized_frame_def half_draws_def atan2_def Let_def)
  have c: "p_color (open_update unsized_frame 0 ?p) = Hsla 180 80 60 0.8"
    by (simp add: open_update_def initParticle_def unsized_frame_def Let_def)
  have i: "p_vx ?p = 0" "p_color ?p = Rgba 100 200 255 0.8"
    by (simp_all add: initParticle_def half_draws_def)
  have z: "width unsized_frame = 0" "height unsized_frame = 0"
    by (simp_all add: unsized_frame_def)
  show ?thesis
    by (simp add: pop a u v c p0 i z)
qed

text \<open>
  C9. Over any run of frames under any sequence of gestures, a drawable population
  keeps its number of particles and no frame raises; the population created by
  \<open>handleResize\<close> from draws of \<open>Math.random()\<close> (which are never negative) is
  drawable and keeps its 1200 particles.
\<close>

theorem particle_count_invariant:
  "(drawable ps \<longrightarrow> (\<exists>qs. run_frames fs ps = Inr qs \<and> length qs = length ps)) \<and>
   ((\<forall>k. 0 \<le> rnd k) \<longrightarrow>
      (\<exists>qs. run_frames fs (handleResize rnd innerWidth innerHeight []) = Inr qs \<and>
            length qs = particleCount))"
proof -
  have "drawable ps \<longrightarrow> (\<exists>qs. run_frames fs ps = Inr qs \<and> length qs = length ps)"
    using run_frames_drawable[of ps fs] by blast
  moreover have "(\<forall>k. 0 \<le> rnd k) \<longrightarrow>
      (\<exists>qs. run_frames fs (handleResize rnd innerWidth innerHeight []) = Inr qs \<and>
            length qs = particleCount)"
  proof
    assume "\<forall>k. 0 \<le> rnd k"
    then have "drawable (initParticles rnd (real innerWidth) (real innerHeight))"
      by (intro drawable_initParticles) simp
    from run_frames_drawable[OF this, of fs] show "\<exists>qs. run_frames fs (handleResize rnd innerWidth innerHeight []) = Inr qs \<and>
            length qs = particleCount"
      by (auto simp: handleResize_def initParticles_def)
  qed
  ultimately show ?thesis by blast
qed

text \<open>
  The theorem for runs that switch between open and flower mode.
\<close>

theorem particle_count_invariant_witness:
  "drawable [edge_particle, edge_particle] \<and>
   (\<exists>qs. run_frames [(OPEN, demo_frame), (FIST, demo_frame), (OPEN, demo_frame), (NONE, demo_frame)]
             [edge_particle, edge_particle] = Inr qs \<and> length qs = 2) \<and>
   (\<forall>k. 0 \<le> half_draws k) \<and>
   (\<exists>qs. run_frames [(OPEN, demo_frame), (FIST, demo_frame), (OPEN, demo_frame)]
             (handleResize half_draws 800 600 []) = Inr qs \<and> length qs = 1200)"
proof -
  have d: "drawable [edge_particle, edge_particle]"
    by (simp add: drawable_def edge_particle_def)
  have r: "\<forall>k. 0 \<le> half_draws k" by (simp add: half_draws_def)
  have len2: "length [edge_particle, edge_particle] = 2" by simp
  have a: "\<exists>qs. run_frames [(OPEN, demo_frame), (FIST, demo_frame), (OPEN, demo_frame), (NONE, demo_frame)]
             [edge_particle, edge_particle] = Inr qs \<and> length qs = length [edge_particle, edge_particle]"
    using particle_count_invariant
      [of "[edge_particle, edge_particle]"
          "[(OPEN, demo_frame), (FIST, demo_frame), (OPEN, demo_frame), (NONE, demo_frame)]"] d
    by blast
  have b: "\<exists>qs. run_frames [(OPEN, demo_frame), (FIST, demo_frame), (OPEN, demo_frame)]
             (handleResize half_draws 800 600 []) = Inr qs \<and> length qs = particleCount"
    using particle_count_invariant
      [of "[]" "[(OPEN, demo_frame), (FIST, demo_frame), (OPEN, demo_frame)]" half_draws 800 600] r
    by blast
  from a have a': "\<exists>qs. run_frames [(OPEN, demo_frame), (FIST, demo_frame), (OPEN, demo_frame), (NONE, demo_frame)]
             [edge_particle, edge_particle] = Inr qs \<and> length qs = 2"
    using len2 by (simp only:)
  from b have b': "\<exists>qs. run_frames [(OPEN, demo_frame), (FIST, demo_frame), (OPEN, demo_frame)]
             (handleResize half_draws 800 600 []) = Inr qs \<and> length qs = 1200"
    by (simp only: particleCount_def)
  from d a' r b' show ?thesis by blast
qed




section \<open>Claims about the authoritative gesture\<close>

lemma app_run_cells:
  "cameraGesture (app_run evs s) = last (cameraGesture s # published evs) \<and>
   isShiftPressed (app_run evs s) = held_after (isShiftPressed s) evs"
proof (induction evs arbitrary: s)
  case Nil
  show ?case by (simp add: app_run_def)
next
  case (Cons ev evs)
  have run: "app_run (ev # evs) s = app_run evs (app_step s ev)"
    by (simp add: app_run_def)
  show ?case
    unfolding run using Cons.IH[of "app_step s ev"]
    by (cases ev) (simp_all add: handleKeyDown_def handleKeyUp_def)
qed

text \<open>
  C5. The authoritative gesture is \<open>FIST\<close> when the override is held and the camera
  label otherwise, for every label; after any sequence of key events and published
  labels it is \<open>FIST\<close> if Shift is held at the end and otherwise the last label
  published (the initial one if none was); labels published while the key is held do
  not change it; and releasing the key yields exactly the last published label.
\<close>

theorem currentGesture_override:
  "currentGesture \<lparr> cameraGesture = c, isShiftPressed = True \<rparr> = FIST \<and>
   currentGesture \<lparr> cameraGesture = c, isShiftPressed = False \<rparr> = c \<and>
   currentGesture (app_run evs s) =
     (if held_after (isShiftPressed s) evs then FIST else last (cameraGesture s # published evs)) \<and>
   currentGesture (app_run (map GestureDetected gs) (handleKeyDown ''Shift'' s)) = FIST \<and>
   currentGesture (handleKeyUp ''Shift'' (app_run evs s)) = last (cameraGesture s # published evs)"
proof -
  have cell: "currentGesture t = (if isShiftPressed t then FIST else cameraGesture t)" for t
    by (simp add: currentGesture_def)
  have a: "currentGesture \<lparr> cameraGesture = c, isShiftPressed = True \<rparr> = FIST"
    and b: "currentGesture \<lparr> cameraGesture = c, isShiftPressed = False \<rparr> = c"
    by (simp_all add: currentGesture_def)
  have c: "currentGesture (app_run evs s) =
     (if held_after (isShiftPressed s) evs then FIST else last (cameraGesture s # published evs))"
    using app_run_cells[of evs s] by (simp only: cell)
  have held: "held_after True (map GestureDetected gs) = True"
    by (induction gs) simp_all
  have "isShiftPressed (app_run (map GestureDetected gs) (handleKeyDown ''Shift'' s))"
    using app_run_cells[of "map GestureDetected gs" "handleKeyDown ''Shift'' s"]
    by (simp add: held handleKeyDown_def)
  then have d: "currentGesture (app_run (map GestureDetected gs) (handleKeyDown ''Shift'' s)) = FIST"
    by (simp only: cell if_True)
  have "currentGesture (handleKeyUp ''Shift'' (app_run evs s)) = cameraGesture (app_run evs s)"
    by (simp add: currentGesture_def handleKeyUp_def)
  then have e: "currentGesture (handleKeyUp ''Shift'' (app_run evs s)) =
                  last (cameraGesture s # published evs)"
    using app_run_cells[of evs s] by (simp only:)
  from a b c d e show ?thesis by blast
qed

text \<open>
  The theorem on a run: Shift pressed, \<open>OPEN\<close> and \<open>NONE\<close> published, Shift released.
\<close>

theorem currentGesture_override_witness:
  "currentGesture (app_run [KeyDown ''Shift'', GestureDetected OPEN] app_init) = FIST \<and>
   currentGesture (app_run [KeyDown ''Shift'', GestureDetected OPEN, GestureDetected NONE,
                            KeyUp ''Shift''] app_init) = NONE \<and>
   currentGesture (app_run [GestureDetected FIST, KeyDown ''a'', GestureDetected OPEN] app_init) = OPEN"
  using currentGesture_override
    [of OPEN "[KeyDown ''Shift'', GestureDetected OPEN]" app_init "[]"]
    currentGesture_override
    [of OPEN "[KeyDown ''Shift'', GestureDetected OPEN, GestureDetected NONE, KeyUp ''Shift'']"
        app_init "[]"]
    currentGesture_override
    [of OPEN "[GestureDetected FIST, KeyDown ''a'', GestureDetected OPEN]" app_init "[]"]
  by (simp add: app_init_def)

section \<open>Claims about camera acquisition and sampling\<close>

lemma stopCamera_fields:
  "streamRef (stopCamera s) = None" "\<not> isCameraReady (stopCamera s)"
  "video_mounted (stopCamera s) = video_mounted s"
  by (simp_all add: stopCamera_def Let_def split: option.splits)

lemma acquired_handleStreamSuccess:
  "acquired st (handleStreamSuccess st ((stopCamera s)\<lparr>error := None\<rparr>))"
  by (simp add: acquired_def handleStreamSuccess_def loadedmetadata_def Let_def stopCamera_fields)

lemma failed_handleError:
  "failed_with (handleError_msg e) (handleError e ((stopCamera s)\<lparr>error := None\<rparr>))"
  by (simp add: failed_with_def handleError_def stopCamera_fields)

lemma startCamera_first:
  "getUserMedia md IdealUser320x240 = Inr st \<Longrightarrow>
   fst (startCamera md s) = [GetUserMedia IdealUser320x240] \<and> acquired st (snd (startCamera md s))"
  by (simp add: startCamera_def Let_def acquired_handleStreamSuccess)

lemma startCamera_second:
  "getUserMedia md IdealUser320x240 = Inl e1 \<Longrightarrow> getUserMedia md VideoTrue = Inr st \<Longrightarrow>
   fst (startCamera md s) = first_two \<and> acquired st (snd (startCamera md s))"
  by (simp add: startCamera_def Let_def acquired_handleStreamSuccess first_two_def)

lemma startCamera_third:
  "getUserMedia md IdealUser320x240 = Inl e1 \<Longrightarrow> getUserMedia md VideoTrue = Inl e2 \<Longrightarrow>
   enumerateDevices md = Inr devices \<Longrightarrow>
   filter (\<lambda>d. kind d = ''videoinput'') devices = d # ds \<Longrightarrow>
   getUserMedia md (ExactDeviceId (deviceId d)) = Inr st \<Longrightarrow>
   fst (startCamera md s) = first_two @ [EnumerateDevices, GetUserMedia (ExactDeviceId (deviceId d))] \<and>
   acquired st (snd (startCamera md s))"
  by (simp add: startCamera_def Let_def acquired_handleStreamSuccess first_two_def)

lemma startCamera_fail_enumerate:
  "getUserMedia md IdealUser320x240 = Inl e1 \<Longrightarrow> getUserMedia md VideoTrue = Inl e2 \<Longrightarrow>
   enumerateDevices md = Inl e3 \<Longrightarrow>
   fst (startCamera md s) = first_two @ [EnumerateDevices] \<and>
   failed_with (handleError_msg e3) (snd (startCamera md s))"
  by (simp add: startCamera_def Let_def failed_handleError first_two_def)

lemma startCamera_fail_no_device:
  "getUserMedia md IdealUser320x240 = Inl e1 \<Longrightarrow> getUserMedia md VideoTrue = Inl e2 \<Longrightarrow>
   enumerateDevices md = Inr devices \<Longrightarrow>
   filter (\<lambda>d. kind d = ''videoinput'') devices = [] \<Longrightarrow>
   fst (startCamera md s) = first_two @ [EnumerateDevices] \<and>
   failed_with ''Unable to access camera.'' (snd (startCamera md s))"
proof -
  have m: "handleError_msg \<lparr> err_name = ''Error'', err_message = ''No video input devices found'' \<rparr>
             = ''Unable to access camera.''"
    by (simp add: handleError_msg_def)
  assume "getUserMedia md IdealUser320x240 = Inl e1" "getUserMedia md VideoTrue = Inl e2"
   "enumerateDevices md = Inr devices" "filter (\<lambda>d. kind d = ''videoinput'') devices = []"
  then show ?thesis
    using failed_handleError[of "\<lparr> err_name = ''Error'', err_message = ''No video input devices found'' \<rparr>" s]
    by (simp add: startCamera_def Let_def first_two_def m)
qed

lemma startCamera_fail_device:
  "getUserMedia md IdealUser320x240 = Inl e1 \<Longrightarrow> getUserMedia md VideoTrue = Inl e2 \<Longrightarrow>
   enumerateDevices md = Inr devices \<Longrightarrow>
   filter (\<lambda>d. kind d = ''videoinput'') devices = d # ds \<Longrightarrow>
   getUserMedia md (ExactDeviceId (deviceId d)) = Inl e3 \<Longrightarrow>
   fst (startCamera md s) = first_two @ [EnumerateDevices, GetUserMedia (ExactDeviceId (deviceId d))] \<and>
   failed_with (handleError_msg e3) (snd (startCamera md s))"
  by (simp add: startCamera_def Let_def failed_handleError first_two_def)

lemma handleError_msg_cases:
  "(err_name e = ''NotAllowedError'' \<or> err_name e = ''PermissionDeniedError'' \<longrightarrow>
      handleError_msg e = ''Permission denied. Please allow camera access.'') \<and>
   (err_name e = ''NotReadableError'' \<or> err_name e = ''TrackStartError'' \<longrightarrow>
      handleError_msg e = ''Camera is in use by another app.'') \<and>
   (err_name e = ''NotFoundError'' \<or> err_name e = ''DevicesNotFoundError'' \<longrightarrow>
      handleError_msg e = ''No camera found.'') \<and>
   (err_name e \<notin> {''NotAllowedError'', ''PermissionDeniedError'', ''NotReadableError'',
                   ''TrackStartError'', ''NotFoundError'', ''DevicesNotFoundError''} \<longrightarrow>
      handleError_msg e =
        (if includes_str (err_message e) ''Could not start video source''
         then ''Hardware error: Camera may be busy.'' else ''Unable to access camera.''))"
  by (auto simp: handleError_msg_def)

text \<open>
  C3. \<open>startCamera\<close> tries the constrained request, then the unconstrained request,
  then enumerates the devices and requests the first video input by its id. It stops at
  the first request that succeeds, having made exactly the calls up to it: the stream
  is kept, no error is shown and the source is marked ready when the video reports its
  metadata. Only when all three strategies fail (the third by a failing enumeration, by
  an empty list of video inputs, or by a failing request) does it show an error, chosen
  from the final failure: by the error's name the permission-denied, camera-in-use and
  no-camera messages, otherwise the hardware message when the error's message contains
  \<open>Could not start video source\<close>, and the generic message in every other case (which
  includes the component's own error for an empty list of video inputs).
\<close>

theorem startCamera_fallback:
  "(getUserMedia md IdealUser320x240 = Inr st \<longrightarrow>
      fst (startCamera md s) = [GetUserMedia IdealUser320x240] \<and>
      acquired st (snd (startCamera md s))) \<and>
   (getUserMedia md IdealUser320x240 = Inl e1 \<and> getUserMedia md VideoTrue = Inr st \<longrightarrow>
      fst (startCamera md s) = first_two \<and> acquired st (snd (startCamera md s))) \<and>
   (getUserMedia md IdealUser320x240 = Inl e1 \<and> getUserMedia md VideoTrue = Inl e2 \<and>
    enumerateDevices md = Inr devices \<and>
    filter (\<lambda>d. kind d = ''videoinput'') devices = d # ds \<and>
    getUserMedia md (ExactDeviceId (deviceId d)) = Inr st \<longrightarrow>
      fst (startCamera md s) =
        first_two @ [EnumerateDevices, GetUserMedia (ExactDeviceId (deviceId d))] \<and>
      acquired st (snd (startCamera md s))) \<and>
   (getUserMedia md IdealUser320x240 = Inl e1 \<and> getUserMedia md VideoTrue = Inl e2 \<and>
    enumerateDevices md = Inl e3 \<longrightarrow>
      fst (startCamera md s) = first_two @ [EnumerateDevices] \<and>
      failed_with (handleError_msg e3) (snd (startCamera md s))) \<and>
   (getUserMedia md IdealUser320x240 = Inl e1 \<and> getUserMedia md VideoTrue = Inl e2 \<and>
    enumerateDevices md = Inr devices \<and>
    filter (\<lambda>d. kind d = ''videoinput'') devices = [] \<longrightarrow>
      fst (startCamera md s) = first_two @ [EnumerateDevices] \<and>
      failed_with ''Unable to access camera.'' (snd (startCamera md s))) \<and>
   (getUserMedia md IdealUser320x240 = Inl e1 \<and> getUserMedia md VideoTrue = Inl e2 \<and>
    enumerateDevices md = Inr devices \<and>
    filter (\<lambda>d. kind d = ''videoinput'') devices = d # ds \<and>
    getUserMedia md (ExactDeviceId (deviceId d)) = Inl e3 \<longrightarrow>
      fst (startCamera md s) =
        first_two @ [EnumerateDevices, GetUserMedia (ExactDeviceId (deviceId d))] \<and>
      failed_with (handleError_msg e3) (snd (startCamera md s))) \<and>
   (err_name e = ''NotAllowedError'' \<or> err_name e = ''PermissionDeniedError'' \<longrightarrow>
      handleError_msg e = ''Permission denied. Please allow camera access.'') \<and>
   (err_name e = ''NotReadableError'' \<or> err_name e = ''TrackStartError'' \<longrightarrow>
      handleError_msg e = ''Camera is in use by another app.'') \<and>
   (err_name e = ''NotFoundError'' \<or> err_name e = ''DevicesNotFoundError'' \<longrightarrow>
      handleError_msg e = ''No camera found.'') \<and>
   (err_name e \<notin> {''NotAllowedError'', ''PermissionDeniedError'', ''NotReadableError'',
                   ''TrackStartError'', ''NotFoundError'', ''DevicesNotFoundError''} \<longrightarrow>
      handleError_msg e =
        (if includes_str (err_message e) ''Could not start video source''
         then ''Hardware error: Camera may be busy.'' else ''Unable to access camera.''))"
  using startCamera_first[of md st s] startCamera_second[of md e1 st s]
    startCamera_third[of md e1 e2 devices d ds st s]
    startCamera_fail_enumerate[of md e1 e2 e3 s]
    startCamera_fail_no_device[of md e1 e2 devices s]
    startCamera_fail_device[of md e1 e2 devices d ds e3 s]
    handleError_msg_cases[of e]
  by blast

text \<open>
  The theorem on six mediaDevices, one for each path: the first, second and third
  strategy succeeding; the enumeration failing, no video input enumerated, and every
  request refused for lack of permission; and on one error for each remaining message.
\<close>

theorem startCamera_fallback_witness:
  "fst (startCamera plain_env (control_init :: unit control_state)) =
     [GetUserMedia IdealUser320x240] \<and>
   streamRef (snd (startCamera plain_env (control_init :: unit control_state))) = Some 1 \<and>
   fst (startCamera generic_env (control_init :: unit control_state)) =
     [GetUserMedia IdealUser320x240, GetUserMedia VideoTrue] \<and>
   streamRef (snd (startCamera generic_env (control_init :: unit control_state))) = Some 2 \<and>
   fst (startCamera fallback_env (control_init :: unit control_state)) =
     [GetUserMedia IdealUser320x240, GetUserMedia VideoTrue, EnumerateDevices,
      GetUserMedia (ExactDeviceId ''cam0'')] \<and>
   streamRef (snd (startCamera fallback_env (control_init :: unit control_state))) = Some 7 \<and>
   error (snd (startCamera fallback_env (control_init :: unit control_state))) = None \<and>
   isCameraReady (loadedmetadata (snd (startCamera fallback_env (control_init :: unit control_state)))) \<and>
   fst (startCamera no_enumeration_env (control_init :: unit control_state)) =
     [GetUserMedia IdealUser320x240, GetUserMedia VideoTrue, EnumerateDevices] \<and>
   error (snd (startCamera no_enumeration_env (control_init :: unit control_state))) =
     Some ''No camera found.'' \<and>
   fst (startCamera audio_only_env (control_init :: unit control_state)) =
     [GetUserMedia IdealUser320x240, GetUserMedia VideoTrue, EnumerateDevices] \<and>
   error (snd (startCamera audio_only_env (control_init :: unit control_state))) =
     Some ''Unable to access camera.'' \<and>
   fst (startCamera denied_env (control_init :: unit control_state)) =
     [GetUserMedia IdealUser320x240, GetUserMedia VideoTrue, EnumerateDevices,
      GetUserMedia (ExactDeviceId ''cam0'')] \<and>
   \<not> isCameraReady (snd (startCamera denied_env (control_init :: unit control_state))) \<and>
   error (snd (startCamera denied_env (control_init :: unit control_state))) =
     Some ''Permission denied. Please allow camera access.'' \<and>
   handleError_msg \<lparr> err_name = ''TrackStartError'', err_message = '''' \<rparr> =
     ''Camera is in use by another app.'' \<and>
   handleError_msg \<lparr> err_name = ''AbortError'',
                     err_message = ''Could not start video source'' \<rparr> =
     ''Hardware error: Camera may be busy.'' \<and>
   handleError_msg \<lparr> err_name = ''OverconstrainedError'', err_message = '''' \<rparr> =
     ''Unable to access camera.''"
proof -
  let ?busy = "\<lparr> err_name = ''NotReadableError'', err_message = ''Could not start video source'' \<rparr>"
  let ?denied = "\<lparr> err_name = ''NotAllowedError'', err_message = ''Permission denied'' \<rparr>"
  let ?over = "\<lparr> err_name = ''OverconstrainedError'', err_message = '''' \<rparr>"
  let ?missing = "\<lparr> err_name = ''NotFoundError'', err_message = ''Requested device not found'' \<rparr>"
  let ?track = "\<lparr> err_name = ''TrackStartError'', err_message = '''' \<rparr>"
  let ?abort = "\<lparr> err_name = ''AbortError'', err_message = ''Could not start video source'' \<rparr>"
  let ?cam = "\<lparr> kind = ''videoinput'', deviceId = ''cam0'' \<rparr>"
  let ?mic = "\<lparr> kind = ''audioinput'', deviceId = ''mic0'' \<rparr>"
  let ?s = "control_init :: unit control_state"
  have p: "getUserMedia plain_env IdealUser320x240 = Inr 1"
    by (simp add: plain_env_def)
  have g: "getUserMedia generic_env IdealUser320x240 = Inl ?over"
    "getUserMedia generic_env VideoTrue = Inr 2"
    by (simp_all add: generic_env_def)
  have f: "getUserMedia fallback_env IdealUser320x240 = Inl ?busy"
    "getUserMedia fallback_env VideoTrue = Inl ?busy"
    "enumerateDevices fallback_env = Inr [?mic, ?cam]"
    "filter (\<lambda>d. kind d = ''videoinput'') [?mic, ?cam] = ?cam # []"
    "getUserMedia fallback_env (ExactDeviceId (deviceId ?cam)) = Inr 7"
    by (simp_all add: fallback_env_def)
  have n: "getUserMedia no_enumeration_env IdealUser320x240 = Inl ?missing"
    "getUserMedia no_enumeration_env VideoTrue = Inl ?missing"
    "enumerateDevices no_enumeration_env = Inl ?missing"
    "err_name ?missing = ''NotFoundError''"
    by (simp_all add: no_enumeration_env_def)
  have a: "getUserMedia audio_only_env IdealUser320x240 = Inl ?missing"
    "getUserMedia audio_only_env VideoTrue = Inl ?missing"
    "enumerateDevices audio_only_env = Inr [?mic]"
    "filter (\<lambda>d. kind d = ''videoinput'') [?mic] = []"
    by (simp_all add: audio_only_env_def)
  have d: "getUserMedia denied_env IdealUser320x240 = Inl ?denied"
    "getUserMedia denied_env VideoTrue = Inl ?denied"
    "enumerateDevices denied_env = Inr [?cam]"
    "filter (\<lambda>d. kind d = ''videoinput'') [?cam] = ?cam # []"
    "getUserMedia denied_env (ExactDeviceId (deviceId ?cam)) = Inl ?denied"
    "err_name ?denied = ''NotAllowedError''"
    by (simp_all add: denied_env_def)
  have k: "err_name ?track = ''TrackStartError''"
    "err_name ?abort \<notin> {''NotAllowedError'', ''PermissionDeniedError'', ''NotReadableError'',
                   ''TrackStartError'', ''NotFoundError'', ''DevicesNotFoundError''}"
    "includes_str (err_message ?abort) ''Could not start video source''"
    "err_name ?over \<notin> {''NotAllowedError'', ''PermissionDeniedError'', ''NotReadableError'',
                   ''TrackStartError'', ''NotFoundError'', ''DevicesNotFoundError''}"
    "\<not> includes_str (err_message ?over) ''Could not start video source''"
    by simp_all
  have vm: "video_mounted (snd (startCamera fallback_env ?s))"
    by (simp add: startCamera_def fallback_env_def Let_def handleStreamSuccess_def
        stopCamera_def control_init_def)
  have w1: "fst (startCamera plain_env ?s) = [GetUserMedia IdealUser320x240] \<and>
            acquired 1 (snd (startCamera plain_env ?s))"
    using startCamera_fallback[of plain_env 1 ?s] p by blast
  have w2: "fst (startCamera generic_env ?s) = first_two \<and>
            acquired 2 (snd (startCamera generic_env ?s))"
    using startCamera_fallback[of generic_env 2 ?s ?over] g by blast
  have w3: "fst (startCamera fallback_env ?s) =
             first_two @ [EnumerateDevices, GetUserMedia (ExactDeviceId (deviceId ?cam))] \<and>
           acquired 7 (snd (startCamera fallback_env ?s))"
    using startCamera_fallback[of fallback_env 7 ?s ?busy ?busy "[?mic, ?cam]" ?cam "[]"] f
    by blast
  have w4: "fst (startCamera no_enumeration_env ?s) = first_two @ [EnumerateDevices] \<and>
           failed_with (handleError_msg ?missing) (snd (startCamera no_enumeration_env ?s)) \<and>
           handleError_msg ?missing = ''No camera found.''"
    using startCamera_fallback[of no_enumeration_env 0 ?s ?missing ?missing "[]" ?cam "[]"
        ?missing ?missing] n
    by blast
  have w5: "fst (startCamera audio_only_env ?s) = first_two @ [EnumerateDevices] \<and>
           failed_with ''Unable to access camera.'' (snd (startCamera audio_only_env ?s))"
    using startCamera_fallback[of audio_only_env 0 ?s ?missing ?missing "[?mic]"] a
    by blast
  have w6: "fst (startCamera denied_env ?s) =
             first_two @ [EnumerateDevices, GetUserMedia (ExactDeviceId (deviceId ?cam))] \<and>
           failed_with (handleError_msg ?denied) (snd (startCamera denied_env ?s)) \<and>
           handleError_msg ?denied = ''Permission denied. Please allow camera access.''"
    using startCamera_fallback[of denied_env 0 ?s ?denied ?denied "[?cam]" ?cam "[]" ?denied ?denied] d
    by blast
  have w7: "handleError_msg ?track = ''Camera is in use by another app.''"
    using startCamera_fallback[of plain_env 1 ?s _ _ _ _ _ _ ?track] k(1) by blast
  have w8: "handleError_msg ?abort = ''Hardware error: Camera may be busy.''"
    using startCamera_fallback[of plain_env 1 ?s _ _ _ _ _ _ ?abort] k(2,3) by simp
  have w9: "handleError_msg ?over = ''Unable to access camera.''"
    using startCamera_fallback[of plain_env 1 ?s _ _ _ _ _ _ ?over] k(4,5) by simp
  from w1 w2 w3 vm w4 w5 w6 w7 w8 w9 show ?thesis
    by (simp add: acquired_def failed_with_def first_two_def)
qed

lemma stopCamera_sampler [simp]:
  "in_flight (stopCamera s) = in_flight s" "isProcessing (stopCamera s) = isProcessing s"
  "captures (stopCamera s) = captures s" "detected (stopCamera s) = detected s"
  by (simp_all add: stopCamera_def Let_def split: option.splits)

lemma handleStreamSuccess_sampler [simp]:
  "in_flight (handleStreamSuccess st s) = in_flight s"
  "isProcessing (handleStreamSuccess st s) = isProcessing s"
  "captures (handleStreamSuccess st s) = captures s"
  "detected (handleStreamSuccess st s) = detected s"
  by (simp_all add: handleStreamSuccess_def Let_def)

lemma handleError_sampler [simp]:
  "in_flight (handleError e s) = in_flight s" "isProcessing (handleError e s) = isProcessing s"
  "captures (handleError e s) = captures s" "detected (handleError e s) = detected s"
  by (simp_all add: handleError_def)

lemma loadedmetadata_sampler [simp]:
  "in_flight (loadedmetadata s) = in_flight s" "isProcessing (loadedmetadata s) = isProcessing s"
  "captures (loadedmetadata s) = captures s" "detected (loadedmetadata s) = detected s"
  by (simp_all add: loadedmetadata_def)

lemma startCamera_sampler [simp]:
  "in_flight (snd (startCamera md s)) = in_flight s"
  "isProcessing (snd (startCamera md s)) = isProcessing s"
  "captures (snd (startCamera md s)) = captures s"
  "detected (snd (startCamera md s)) = detected s"
  by (simp_all add: startCamera_def Let_def split: sum.splits list.splits)

lemma captureAndAnalyze_dropped:
  "isProcessing s \<or> videoWidth env = 0 \<or> videoHeight env = 0 \<Longrightarrow> captureAndAnalyze env s = s"
  by (auto simp: captureAndAnalyze_def)

lemma captureAndAnalyze_single_slot:
  "single_slot s \<Longrightarrow> single_slot (captureAndAnalyze env s)"
  by (auto simp: single_slot_def captureAndAnalyze_def Let_def split: sum.splits)

lemma settle_single_slot: "single_slot s \<Longrightarrow> single_slot (settle outcome s)"
  by (auto simp: single_slot_def settle_def Let_def split: list.splits sum.splits)

lemma control_step_single_slot: "single_slot s \<Longrightarrow> single_slot (control_step s ev)"
proof (cases ev)
  case (Tick env)
  assume "single_slot s"
  then show ?thesis using Tick by (simp add: captureAndAnalyze_single_slot)
next
  case (Settle outcome)
  assume "single_slot s"
  then show ?thesis using Settle by (simp add: settle_single_slot)
qed (simp_all add: single_slot_def)

lemma control_run_single_slot: "single_slot s \<Longrightarrow> single_slot (control_run evs s)"
  unfolding control_run_def
  by (induction evs arbitrary: s) (simp_all add: control_step_single_slot)

lemma busy_cleared_only_by_settle:
  "isProcessing s \<Longrightarrow> \<not> isProcessing (control_step s ev) \<Longrightarrow> \<exists>outcome. ev = Settle outcome"
  by (cases ev) (auto simp: captureAndAnalyze_dropped split: if_splits)

lemma settle_clears:
  "in_flight s = [img] \<Longrightarrow>
   in_flight (settle outcome s) = [] \<and> \<not> isProcessing (settle outcome s) \<and>
   detected (settle outcome s) = (case outcome of Inr g \<Rightarrow> detected s @ [g] | Inl e \<Rightarrow> detected s)"
  by (simp add: settle_def Let_def split: sum.splits)

lemma captureAndAnalyze_starts:
  "video_mounted s \<Longrightarrow> canvas_mounted s \<Longrightarrow> isCameraReady s \<Longrightarrow> \<not> isProcessing s \<Longrightarrow>
   videoWidth env \<noteq> 0 \<Longrightarrow> videoHeight env \<noteq> 0 \<Longrightarrow> has_context env \<Longrightarrow>
   toDataURL env = Inr img \<Longrightarrow>
   captureAndAnalyze env s =
     s\<lparr> isProcessing := True, captures := captures s + 1, in_flight := in_flight s @ [img] \<rparr>"
  by (simp add: captureAndAnalyze_def Let_def)

lemma ready_state_eq:
  "ready_state = control_init\<lparr> streamRef := Some 7, srcObject := Some 7,
                               onloadedmetadata := True, isCameraReady := True \<rparr>"
  by (simp add: ready_state_def control_run_def startCamera_def fallback_env_def Let_def
      stopCamera_def handleStreamSuccess_def loadedmetadata_def control_init_def)

lemma busy_state_eq:
  "busy_state = ready_state\<lparr> isProcessing := True, captures := 1,
                              in_flight := [''data:image/jpeg;base64,AAAA''] \<rparr>"
  by (simp add: busy_state_def control_run_def ready_state_eq captureAndAnalyze_def
      frame_tick_def Let_def control_init_def)

text \<open>
  C4. From a component with no call in flight and the busy flag clear, after any
  sequence of ticks, settled calls, camera starts, metadata events and teardowns, at
  most one classification call is in flight, and the busy flag is set exactly while one
  is. A tick that finds the busy flag set, or a video of zero width or height, leaves
  the state as it is: no capture, no call, nothing queued. The busy flag is cleared by
  no event other than the settling of a call, and the settling of the call in flight
  clears it whether the call resolved or was rejected.
\<close>

theorem single_flight_sampling:
  assumes "in_flight s0 = []" "\<not> isProcessing s0"
  shows "length (in_flight (control_run evs s0)) \<le> 1 \<and>
         isProcessing (control_run evs s0) = (in_flight (control_run evs s0) \<noteq> []) \<and>
         (isProcessing s \<or> videoWidth env = 0 \<or> videoHeight env = 0 \<longrightarrow>
            control_step s (Tick env) = s) \<and>
         (isProcessing s \<and> \<not> isProcessing (control_step s ev) \<longrightarrow>
            (\<exists>outcome. ev = Settle outcome)) \<and>
         (in_flight s = [img] \<longrightarrow>
            in_flight (control_step s (Settle outcome)) = [] \<and>
            \<not> isProcessing (control_step s (Settle outcome)))"
proof -
  have "single_slot s0" using assms by (simp add: single_slot_def)
  then have "single_slot (control_run evs s0)" by (rule control_run_single_slot)
  then have a: "length (in_flight (control_run evs s0)) \<le> 1"
    and b: "isProcessing (control_run evs s0) = (in_flight (control_run evs s0) \<noteq> [])"
    by (simp_all add: single_slot_def)
  have c: "isProcessing s \<or> videoWidth env = 0 \<or> videoHeight env = 0 \<longrightarrow>
            control_step s (Tick env) = s"
    using captureAndAnalyze_dropped[of s env] by auto
  have d: "isProcessing s \<and> \<not> isProcessing (control_step s ev) \<longrightarrow>
            (\<exists>outcome. ev = Settle outcome)"
    using busy_cleared_only_by_settle[of s ev] by blast
  have e: "in_flight s = [img] \<longrightarrow>
            in_flight (control_step s (Settle outcome)) = [] \<and>
            \<not> isProcessing (control_step s (Settle outcome))"
    using settle_clears[of s img outcome] by simp
  from a b c d e show ?thesis by blast
qed

text \<open>
  The theorem on a run with two submitted frames, and on single events: a tick while a
  call is in flight and a tick that finds a video of width 0 change nothing, and the
  call in flight clears the busy flag when it resolves and when it is rejected.
\<close>

theorem single_flight_sampling_witness:
  "in_flight (control_init :: GestureType control_state) = [] \<and>
   \<not> isProcessing (control_init :: GestureType control_state) \<and>
   length (in_flight (control_run [StartCamera fallback_env, LoadedMetadata, Tick frame_tick,
                                   Tick frame_tick, Settle (Inr FIST), Tick frame_tick]
                (control_init :: GestureType control_state))) \<le> 1 \<and>
   in_flight busy_state = [''data:image/jpeg;base64,AAAA''] \<and> isProcessing busy_state \<and>
   captures busy_state = 1 \<and>
   control_step busy_state (Tick frame_tick) = busy_state \<and>
   videoWidth (frame_tick\<lparr>videoWidth := 0\<rparr>) = 0 \<and>
   control_step ready_state (Tick (frame_tick\<lparr>videoWidth := 0\<rparr>)) = ready_state \<and>
   in_flight (control_step busy_state (Settle (Inr FIST))) = [] \<and>
   \<not> isProcessing (control_step busy_state (Settle (Inr FIST))) \<and>
   in_flight (control_step busy_state
                (Settle (Inl \<lparr> err_name = ''TypeError'', err_message = ''Failed to fetch'' \<rparr>))) = [] \<and>
   \<not> isProcessing (control_step busy_state
                (Settle (Inl \<lparr> err_name = ''TypeError'', err_message = ''Failed to fetch'' \<rparr>))) \<and>
   (\<exists>outcome. Settle (Inr FIST) = (Settle outcome :: GestureType control_event))"
proof -
  let ?s = "control_init :: GestureType control_state"
  let ?img = "''data:image/jpeg;base64,AAAA''"
  let ?e = "\<lparr> err_name = ''TypeError'', err_message = ''Failed to fetch'' \<rparr>"
  let ?evs = "[StartCamera fallback_env, LoadedMetadata, Tick frame_tick,
               Tick frame_tick, Settle (Inr FIST), Tick frame_tick] :: GestureType control_event list"
  have i: "in_flight ?s = []" "\<not> isProcessing ?s"
    by (simp_all add: control_init_def)
  have b: "in_flight busy_state = [?img]" "isProcessing busy_state" "captures busy_state = 1"
    by (simp_all add: busy_state_eq)
  have z: "videoWidth (frame_tick\<lparr>videoWidth := 0\<rparr>) = 0" by simp
  note th = single_flight_sampling[OF i]
  have w1: "length (in_flight (control_run ?evs ?s)) \<le> 1"
    using th[of ?evs] by blast
  have w2: "control_step busy_state (Tick frame_tick) = busy_state"
    using th[of "[]" busy_state frame_tick] b(2) by blast
  have w3: "control_step ready_state (Tick (frame_tick\<lparr>videoWidth := 0\<rparr>)) = ready_state"
    using th[of "[]" ready_state "frame_tick\<lparr>videoWidth := 0\<rparr>"] z by blast
  have w4: "in_flight (control_step busy_state (Settle (Inr FIST))) = [] \<and>
            \<not> isProcessing (control_step busy_state (Settle (Inr FIST)))"
    using th[of "[]" busy_state frame_tick "Settle (Inr FIST)" ?img "Inr FIST"] b(1) by blast
  have w5: "in_flight (control_step busy_state (Settle (Inl ?e))) = [] \<and>
            \<not> isProcessing (control_step busy_state (Settle (Inl ?e)))"
    using th[of "[]" busy_state frame_tick "Settle (Inl ?e)" ?img "Inl ?e"] b(1) by blast
  have w6: "\<exists>outcome. Settle (Inr FIST) = (Settle outcome :: GestureType control_event)"
    using th[of "[]" busy_state frame_tick "Settle (Inr FIST)" ?img "Inr FIST"] b(2) w4 by blast
  from i w1 b w2 z w3 w4 w5 w6 show ?thesis by blast
qed


section \<open>Claims about the gesture classifier client\<close>

text \<open>
  The definitions that evaluate the string operations and the JSON automata on a
  concrete text.
\<close>

lemmas json_eval =
  JSON_parse_def js_def ch_def startsWith_def endsWith_def lex_idle_def json_space_def
  is_digit_def unescape_def regex_space_def remove_prefix_spaces_def remove_closing_fence_def
  gesture_value_def Let_def

lemma JSON_parse_empty_object: "JSON_parse (js ''{}'') = Some (JObject [])"
  by (simp add: json_eval)

text \<open>
  What holds of the contract: without an API key, on a rejected API call and on every
  exception of the \<open>try\<close> block the result is \<open>NONE\<close>; an unparseable payload and
  the payload \<open>null\<close> are such exceptions; a fenced payload yields its label.
\<close>

lemma detectHandGesture_failures:
  "detectHandGesture [] generateContent img = gesture_value NONE"
  "generateContent (remove_data_url_prefix img) = Inl e \<Longrightarrow>
     detectHandGesture apiKey generateContent img = gesture_value NONE"
  "classify_body generateContent img = Inl c \<Longrightarrow>
     detectHandGesture apiKey generateContent img = gesture_value NONE"
  by (simp_all add: detectHandGesture_def classify_body_def Let_def)

lemma detectHandGesture_unparseable:
  "detectHandGesture (js ''key'') (\<lambda>d. Inr (Some (js ''not json''))) sample_image = gesture_value NONE"
  by (simp add: detectHandGesture_def classify_body_def json_eval)

lemma detectHandGesture_null_payload:
  "detectHandGesture (js ''key'') (\<lambda>d. Inr (Some (js ''null''))) sample_image = gesture_value NONE"
  by (simp add: detectHandGesture_def classify_body_def json_eval)

lemma detectHandGesture_fenced:
  "detectHandGesture (js ''key'') (\<lambda>d. Inr (Some fenced_payload)) sample_image = gesture_value OPEN"
  by (simp add: detectHandGesture_def classify_body_def fenced_payload_def json_eval)

text \<open>
  C2 fails on the empty payload. With an API key, when the response has no text
  (\<open>response.text\<close> is \<open>undefined\<close> or the empty string) the client parses the
  fallback \<open>{}\<close>, reads the missing property \<open>gesture\<close> and returns
  \<open>undefined\<close>, which is none of \<open>FIST\<close>, \<open>OPEN\<close>, \<open>NONE\<close>; the payload \<open>{}\<close>
  itself does the same. Nothing is thrown, and nothing maps the missing label to
  \<open>NONE\<close>.
\<close>

theorem detectHandGesture_empty_payload:
  "detectHandGesture (js ''key'') (\<lambda>d. Inr None) sample_image = Undefined \<and>
   detectHandGesture (js ''key'') (\<lambda>d. Inr (Some [])) sample_image = Undefined \<and>
   detectHandGesture (js ''key'') (\<lambda>d. Inr (Some (js ''{}''))) sample_image = Undefined \<and>
   Undefined \<noteq> gesture_value FIST \<and> Undefined \<noteq> gesture_value OPEN \<and>
   Undefined \<noteq> gesture_value NONE"
  by (simp add: detectHandGesture_def classify_body_def json_eval)

end
